theory Spec2Isabelle
  imports Main "HOL-Library.Word" "HOL-Library.Sublist" "HOL-Library.AList"
begin

chapter \<open>HostNote: the per-user encrypted file store with public sharing\<close>

text \<open>
  A shallow embedding of the HTTP service of HostNote (the Express server of the
  repository): filename validation, the content cipher and its wire format, the request
  handlers of the file store, the metadata sidecars, and the in-memory registry of public
  links with its rebuild at startup.

  \<^item> JavaScript strings are sequences of UTF-16 code units: a string is a list of 16-bit
    words and \<open>length\<close> is JavaScript's \<^verbatim>\<open>.length\<close>. A \<^verbatim>\<open>Buffer\<close> is a list of bytes.
  \<^item> An exception is a value: a function that can throw returns \<open>js_error + 'a\<close>, and every
    \<^verbatim>\<open>try\<close>/\<^verbatim>\<open>catch\<close> of the source is a case distinction on that sum.
  \<^item> The mutable state of the process (the files under the data directory, the registry
    \<^verbatim>\<open>publicFilesRegistry\<close>, the source of random bytes) is a record that every handler
    takes and returns.
  \<^item> The library functions of Node.js whose code is not part of the repository (the hash,
    the key derivation, the AES-GCM cipher, base64 and JSON) are the fields of a record
    \<open>runtime\<close> that every function takes; what the proofs use of them is the contract
    \<open>runtime_ok\<close>.

  Left out: the log lines, the modification time that list reports next to the size, the
  rate limiter, the security headers, the body parser \<^verbatim>\<open>express.json\<close> with its limit on the
  size of a request body, the handler that writes a file (\<^verbatim>\<open>POST /api/files/:filename\<close>),
  which none of the statements below is about, and the middleware \<^verbatim>\<open>requireAuth\<close>, which
  answers 401 before a handler runs when the proxy sent no identity: the handlers below
  take the identity \<^verbatim>\<open>req.userId\<close> as an argument, and rename takes the string
  \<^verbatim>\<open>req.body.newName\<close> of a body that the parser accepted.
\<close>

section \<open>Strings and buffers\<close>

type_synonym jsstring = "16 word list"
type_synonym buffer = "8 word list"

text \<open>A string literal of the source, as code units.\<close>

definition js :: "string \<Rightarrow> jsstring" where
  "js s = map (\<lambda>c. of_nat (of_char c)) s"

text \<open>\<^verbatim>\<open>String.prototype.startsWith\<close>, \<^verbatim>\<open>endsWith\<close> and \<^verbatim>\<open>includes\<close>.\<close>

definition startsWith :: "jsstring \<Rightarrow> jsstring \<Rightarrow> bool" where
  "startsWith s p = prefix p s"

definition endsWith :: "jsstring \<Rightarrow> jsstring \<Rightarrow> bool" where
  "endsWith s p = suffix p s"

fun includes_str :: "jsstring \<Rightarrow> jsstring \<Rightarrow> bool" where
  "includes_str [] p = (p = [])"
| "includes_str (c # cs) p = (prefix p (c # cs) \<or> includes_str cs p)"

text \<open>
  \<^verbatim>\<open>s.slice(1, -10)\<close>: the end index \<open>-10\<close> counts from the end of the string and is
  clamped at \<open>0\<close>; the result is empty when the end is not after the start.
\<close>

definition slice_1_minus10 :: "jsstring \<Rightarrow> jsstring" where
  "slice_1_minus10 s = drop 1 (take (length s - 10) s)"

text \<open>\<^verbatim>\<open>buf.subarray(start, end)\<close> for \<open>0 \<le> start\<close> and \<open>0 \<le> end\<close>; both are clamped to the length.\<close>

definition subarray :: "buffer \<Rightarrow> nat \<Rightarrow> nat \<Rightarrow> buffer" where
  "subarray buf start stop = drop start (take stop buf)"

section \<open>Filename validation\<close>

definition MAX_FILENAME_LENGTH :: nat where
  "MAX_FILENAME_LENGTH = 255"

text \<open>The character classes \<^verbatim>\<open>[a-zA-Z0-9]\<close> and \<^verbatim>\<open>[a-zA-Z0-9._-]\<close>.\<close>

definition alnum :: "16 word \<Rightarrow> bool" where
  "alnum c = ((0x61 \<le> c \<and> c \<le> 0x7A) \<or> (0x41 \<le> c \<and> c \<le> 0x5A) \<or> (0x30 \<le> c \<and> c \<le> 0x39))"

definition name_char :: "16 word \<Rightarrow> bool" where
  "name_char c = (alnum c \<or> c = 0x2E \<or> c = 0x5F \<or> c = 0x2D)"

text \<open>
  \<^verbatim>\<open>FILENAME_REGEX.test(s)\<close> for \<^verbatim>\<open>/^[a-zA-Z0-9][a-zA-Z0-9._-]*$/\<close>: without the
  \<^verbatim>\<open>m\<close> flag the anchors are the two ends of the string.
\<close>

definition FILENAME_REGEX :: "jsstring \<Rightarrow> bool" where
  "FILENAME_REGEX s = (case s of [] \<Rightarrow> False | c # cs \<Rightarrow> alnum c \<and> list_all name_char cs)"

text \<open>
  \<^verbatim>\<open>isValidFilename\<close>. The test \<^verbatim>\<open>typeof filename !== 'string'\<close> concerns values that
  are not strings, which the argument type leaves out; \<^verbatim>\<open>!filename\<close> is true of the
  empty string. \<open>0x5C\<close> is the backslash.
\<close>

definition isValidFilename :: "jsstring \<Rightarrow> bool" where
  "isValidFilename filename =
     (if filename = [] then False
      else if length filename > MAX_FILENAME_LENGTH then False
      else if includes_str filename (js ''..'') \<or> includes_str filename (js ''/'')
              \<or> includes_str filename [0x5C] then False
      else if \<not> FILENAME_REGEX filename then False
      else if startsWith filename (js ''.'') \<or> filename = js ''.'' \<or> filename = js ''..''
        then False
      else True)"

section \<open>UTF-8 as Node.js writes and reads it\<close>

text \<open>
  \<^verbatim>\<open>cipher.update(text, 'utf8')\<close> encodes a string as UTF-8: a surrogate pair is one code
  point of four bytes, and a surrogate that is not part of a pair is written as U+FFFD
  (the bytes \<^verbatim>\<open>EF BF BD\<close>).
\<close>

definition is_high :: "16 word \<Rightarrow> bool" where
  "is_high c = (0xD800 \<le> c \<and> c \<le> 0xDBFF)"

definition is_low :: "16 word \<Rightarrow> bool" where
  "is_low c = (0xDC00 \<le> c \<and> c \<le> 0xDFFF)"

definition encode_cp :: "nat \<Rightarrow> buffer" where
  "encode_cp cp = map of_nat
     (if cp < 0x80 then [cp]
      else if cp < 0x800 then [0xC0 + cp div 64, 0x80 + cp mod 64]
      else if cp < 0x10000 then [0xE0 + cp div 4096, 0x80 + cp div 64 mod 64, 0x80 + cp mod 64]
      else [0xF0 + cp div 262144, 0x80 + cp div 4096 mod 64, 0x80 + cp div 64 mod 64,
            0x80 + cp mod 64])"

definition pair_cp :: "16 word \<Rightarrow> 16 word \<Rightarrow> nat" where
  "pair_cp h l = 0x10000 + (unat h - 0xD800) * 1024 + (unat l - 0xDC00)"

definition unit_cp :: "16 word \<Rightarrow> nat" where
  "unit_cp c = (if is_high c \<or> is_low c then 0xFFFD else unat c)"

fun utf8_encode :: "jsstring \<Rightarrow> buffer" where
  "utf8_encode [] = []"
| "utf8_encode [c] = encode_cp (unit_cp c)"
| "utf8_encode (c # d # ds) =
     (if is_high c \<and> is_low d then encode_cp (pair_cp c d) @ utf8_encode ds
      else encode_cp (unit_cp c) @ utf8_encode (d # ds))"

text \<open>
  Decoding (\<^verbatim>\<open>decipher.update(encrypted, undefined, 'utf8') + decipher.final('utf8')\<close>)
  follows the UTF-8 decoder of the WHATWG Encoding Standard: a state of the bytes still
  needed, the code point so far and the bounds of the next byte; a byte out of bounds
  yields U+FFFD and is read again as a first byte; input that ends inside a sequence
  yields U+FFFD.
\<close>

datatype utf8_state = Start | Cont nat nat nat nat

definition lead :: "nat \<Rightarrow> nat list \<times> utf8_state" where
  "lead b =
     (if b \<le> 0x7F then ([b], Start)
      else if 0xC2 \<le> b \<and> b \<le> 0xDF then ([], Cont (b mod 32) 1 0x80 0xBF)
      else if 0xE0 \<le> b \<and> b \<le> 0xEF then
        ([], Cont (b mod 16) 2 (if b = 0xE0 then 0xA0 else 0x80) (if b = 0xED then 0x9F else 0xBF))
      else if 0xF0 \<le> b \<and> b \<le> 0xF4 then
        ([], Cont (b mod 8) 3 (if b = 0xF0 then 0x90 else 0x80) (if b = 0xF4 then 0x8F else 0xBF))
      else ([0xFFFD], Start))"

fun utf8_step :: "utf8_state \<Rightarrow> nat \<Rightarrow> nat list \<times> utf8_state" where
  "utf8_step Start b = lead b"
| "utf8_step (Cont cp needed lower upper) b =
     (if b < lower \<or> upper < b then (0xFFFD # fst (lead b), snd (lead b))
      else if needed = 1 then ([cp * 64 + b mod 64], Start)
      else ([], Cont (cp * 64 + b mod 64) (needed - 1) 0x80 0xBF))"

fun utf8_run :: "utf8_state \<Rightarrow> nat list \<Rightarrow> nat list" where
  "utf8_run Start [] = []"
| "utf8_run (Cont cp needed lower upper) [] = [0xFFFD]"
| "utf8_run st (b # bs) = fst (utf8_step st b) @ utf8_run (snd (utf8_step st b)) bs"

definition utf16_units :: "nat \<Rightarrow> jsstring" where
  "utf16_units cp =
     (if cp < 0x10000 then [of_nat cp]
      else [of_nat (0xD800 + (cp - 0x10000) div 1024), of_nat (0xDC00 + (cp - 0x10000) mod 1024)])"

definition utf8_decode :: "buffer \<Rightarrow> jsstring" where
  "utf8_decode bs = concat (map utf16_units (utf8_run Start (map unat bs)))"

text \<open>\<^verbatim>\<open>String.prototype.isWellFormed\<close>: no surrogate outside a pair.\<close>

fun isWellFormed :: "jsstring \<Rightarrow> bool" where
  "isWellFormed [] = True"
| "isWellFormed [c] = (\<not> is_high c \<and> \<not> is_low c)"
| "isWellFormed (c # d # ds) =
     (if is_high c then is_low d \<and> isWellFormed ds
      else \<not> is_low c \<and> isWellFormed (d # ds))"

section \<open>Random bytes and hexadecimal text\<close>

text \<open>
  The source of \<^verbatim>\<open>crypto.randomBytes\<close> is a stream of bytes, part of the server state:
  \<open>randomBytes n\<close> returns its first \<open>n\<close> bytes and the rest of the stream.
  \<open>hex_encode\<close> is \<^verbatim>\<open>buf.toString('hex')\<close>.
\<close>

type_synonym rng = "nat \<Rightarrow> 8 word"

definition randomBytes :: "nat \<Rightarrow> rng \<Rightarrow> buffer \<times> rng" where
  "randomBytes n r = (map r [0..<n], \<lambda>i. r (i + n))"

definition hex_digit :: "nat \<Rightarrow> 16 word" where
  "hex_digit d = of_nat (if d < 10 then 0x30 + d else 0x57 + d)"

definition hex_encode :: "buffer \<Rightarrow> jsstring" where
  "hex_encode bs = concat (map (\<lambda>b. [hex_digit (unat b div 16), hex_digit (unat b mod 16)]) bs)"

definition generatePublicId :: "rng \<Rightarrow> jsstring \<times> rng" where
  "generatePublicId r = (case randomBytes 16 r of (bytes, r') \<Rightarrow> (hex_encode bytes, r'))"

section \<open>Metadata, errors and the runtime library\<close>

text \<open>
  The object a sidecar holds, as the server reads it: \<open>isPublic\<close> is the truth value of
  the property (an absent one is falsy), \<open>publicId\<close> is a string or \<^verbatim>\<open>null\<close> (\<open>None\<close>, also
  for an absent one), \<open>userId\<close> a string or absent (\<open>None\<close>: the default metadata and the
  metadata of an unshare of a file never shared have none).
\<close>

record metadata =
  isPublic :: bool
  publicId :: "jsstring option"
  userId :: "jsstring option"

text \<open>
  A value of \<^verbatim>\<open>JSON.parse\<close>: \<^verbatim>\<open>null\<close>, a primitive (a number, a string, a boolean), an
  array, or an object. The server looks at nothing but the three properties above, so an
  object is its metadata record, and primitives and arrays carry nothing. Objects whose
  \<open>publicId\<close> or \<open>userId\<close> is neither a string nor \<^verbatim>\<open>null\<close> are not represented.
\<close>

datatype json = JNull | JPrimitive | JArray | JObject metadata

text \<open>
  The exceptions: the error codes of the file system calls, the \<^verbatim>\<open>SyntaxError\<close> of
  \<^verbatim>\<open>JSON.parse\<close>, the \<^verbatim>\<open>TypeError\<close> of a property access that the value does not allow,
  and the error \<^verbatim>\<open>decipher.final\<close> raises when the tag does not verify (the spec's
  AuthenticationError).
\<close>

datatype js_error =
  ENOENT | ENOTDIR | EISDIR | EEXIST | EACCES | SyntaxError | TypeError | AuthenticationError

text \<open>
  Reading the properties \<^verbatim>\<open>v.isPublic\<close>, \<^verbatim>\<open>v.publicId\<close>, \<^verbatim>\<open>v.userId\<close>: of \<^verbatim>\<open>null\<close> it throws;
  a primitive and an array have none of them, and each reads \<^verbatim>\<open>undefined\<close>.

  Assigning to them (\<^verbatim>\<open>v.isPublic = ...\<close>, in a module, which is strict code): on \<^verbatim>\<open>null\<close>
  and on a primitive it throws; an array takes the properties, and \<^verbatim>\<open>JSON.stringify\<close>
  leaves them out again, so that what is written is the array as it was.
\<close>

definition no_properties :: metadata where
  "no_properties = \<lparr>isPublic = False, publicId = None, userId = None\<rparr>"

definition get_properties :: "json \<Rightarrow> js_error + metadata" where
  "get_properties v =
     (case v of
        JNull \<Rightarrow> Inl TypeError
      | JPrimitive \<Rightarrow> Inr no_properties
      | JArray \<Rightarrow> Inr no_properties
      | JObject m \<Rightarrow> Inr m)"

definition set_properties :: "(metadata \<Rightarrow> metadata) \<Rightarrow> json \<Rightarrow> js_error + json" where
  "set_properties f v =
     (case v of
        JNull \<Rightarrow> Inl TypeError
      | JPrimitive \<Rightarrow> Inl TypeError
      | JArray \<Rightarrow> Inr JArray
      | JObject m \<Rightarrow> Inr (JObject (f m)))"

text \<open>
  The library, as the server calls it:
  \<^item> \<open>ENCRYPTION_KEY\<close> is \<^verbatim>\<open>process.env.ENCRYPTION_KEY\<close>;
  \<^item> \<open>sha256_hex s\<close> is \<^verbatim>\<open>crypto.createHash('sha256').update(s).digest('hex')\<close>;
  \<^item> \<open>pbkdf2Sync\<close> is \<^verbatim>\<open>crypto.pbkdf2Sync(password, salt, iterations, keylen, digest)\<close>;
  \<^item> \<open>cipher_gcm key iv plaintext\<close> is the pair of the ciphertext and the tag that
    \<^verbatim>\<open>createCipheriv('aes-256-gcm', key, iv)\<close> gives by \<^verbatim>\<open>update\<close>, \<^verbatim>\<open>final\<close> and
    \<^verbatim>\<open>getAuthTag\<close>;
  \<^item> \<open>decipher_gcm key iv tag encrypted\<close> is the result of \<^verbatim>\<open>createDecipheriv\<close>,
    \<^verbatim>\<open>setAuthTag\<close>, \<^verbatim>\<open>update\<close> and \<^verbatim>\<open>final\<close>: the plaintext, or \<open>None\<close> when one of them
    throws;
  \<^item> \<open>base64_encode\<close> and \<open>base64_decode\<close> are \<^verbatim>\<open>buf.toString('base64')\<close> and
    \<^verbatim>\<open>Buffer.from(s, 'base64')\<close>;
  \<^item> \<open>JSON_stringify\<close> and \<open>JSON_parse\<close> are \<^verbatim>\<open>JSON.stringify\<close> and \<^verbatim>\<open>JSON.parse\<close>,
    \<open>None\<close> when \<^verbatim>\<open>JSON.parse\<close> throws.
\<close>

record runtime =
  ENCRYPTION_KEY :: jsstring
  sha256_hex :: "jsstring \<Rightarrow> jsstring"
  pbkdf2Sync :: "buffer \<Rightarrow> buffer \<Rightarrow> nat \<Rightarrow> nat \<Rightarrow> string \<Rightarrow> buffer"
  cipher_gcm :: "buffer \<Rightarrow> buffer \<Rightarrow> buffer \<Rightarrow> buffer \<times> buffer"
  decipher_gcm :: "buffer \<Rightarrow> buffer \<Rightarrow> buffer \<Rightarrow> buffer \<Rightarrow> buffer option"
  base64_encode :: "buffer \<Rightarrow> jsstring"
  base64_decode :: "jsstring \<Rightarrow> buffer"
  JSON_stringify :: "json \<Rightarrow> jsstring"
  JSON_parse :: "jsstring \<Rightarrow> json option"

text \<open>
  What the library guarantees: the derived key has the length asked for; decrypting with
  the key, nonce and tag of an encryption returns the plaintext, the ciphertext is as long
  as the plaintext and the tag has 16 bytes; decoding inverts encoding for base64 and for
  JSON.
\<close>

definition runtime_ok :: "runtime \<Rightarrow> bool" where
  "runtime_ok E \<longleftrightarrow>
     (\<forall>password salt iterations keylen digest.
        length (pbkdf2Sync E password salt iterations keylen digest) = keylen)
   \<and> (\<forall>key iv plaintext. length key = 32 \<and> length iv = 16 \<longrightarrow>
        (case cipher_gcm E key iv plaintext of (encrypted, tag) \<Rightarrow>
           length encrypted = length plaintext \<and> length tag = 16
           \<and> decipher_gcm E key iv tag encrypted = Some plaintext))
   \<and> (\<forall>bytes. base64_decode E (base64_encode E bytes) = bytes)
   \<and> (\<forall>v. JSON_parse E (JSON_stringify E v) = Some v)"

section \<open>The content cipher\<close>

text \<open>
  \<open>encrypt\<close> takes the source of random bytes and returns what is left of it. \<open>decrypt\<close>
  either returns the text or throws.
\<close>

definition IV_LENGTH :: nat where "IV_LENGTH = 16"
definition SALT_LENGTH :: nat where "SALT_LENGTH = 64"
definition TAG_LENGTH :: nat where "TAG_LENGTH = 16"
definition TAG_POSITION :: nat where "TAG_POSITION = SALT_LENGTH + IV_LENGTH"
definition ENCRYPTED_POSITION :: nat where "ENCRYPTED_POSITION = TAG_POSITION + TAG_LENGTH"

definition getUserEncryptionKey :: "runtime \<Rightarrow> jsstring \<Rightarrow> buffer" where
  "getUserEncryptionKey E uid =
     pbkdf2Sync E (utf8_encode (ENCRYPTION_KEY E)) (utf8_encode (js ''user:'' @ uid))
       100000 32 ''sha512''"

definition getKey :: "runtime \<Rightarrow> buffer \<Rightarrow> buffer \<Rightarrow> buffer" where
  "getKey E userKey salt = pbkdf2Sync E userKey salt 100000 32 ''sha512''"

definition encrypt :: "runtime \<Rightarrow> jsstring \<Rightarrow> jsstring \<Rightarrow> rng \<Rightarrow> jsstring \<times> rng" where
  "encrypt E text uid r =
     (let userKey = getUserEncryptionKey E uid;
          (salt, r1) = randomBytes SALT_LENGTH r;
          (iv, r2) = randomBytes IV_LENGTH r1;
          key = getKey E userKey salt;
          (encrypted, tag) = cipher_gcm E key iv (utf8_encode text)
      in (base64_encode E (salt @ iv @ tag @ encrypted), r2))"

definition decrypt :: "runtime \<Rightarrow> jsstring \<Rightarrow> jsstring \<Rightarrow> js_error + jsstring" where
  "decrypt E encryptedData uid =
     (let userKey = getUserEncryptionKey E uid;
          buf = base64_decode E encryptedData;
          salt = subarray buf 0 SALT_LENGTH;
          iv = subarray buf SALT_LENGTH TAG_POSITION;
          tag = subarray buf TAG_POSITION ENCRYPTED_POSITION;
          encrypted = subarray buf ENCRYPTED_POSITION (length buf);
          key = getKey E userKey salt
      in case decipher_gcm E key iv tag encrypted of
           None \<Rightarrow> Inl AuthenticationError
         | Some plaintext \<Rightarrow> Inr (utf8_decode plaintext))"

section \<open>The file system under the data directory\<close>

text \<open>
  The data directory \<^verbatim>\<open>/data\<close> holds one directory per namespace; what else lies in it is
  a \<open>TopFile\<close>. A namespace directory holds regular files, each with its text, and
  whatever else (\<open>Subdir\<close>), which \<^verbatim>\<open>stats.isFile()\<close> tells apart. A directory is a list of
  named entries in the order \<^verbatim>\<open>fs.readdir\<close> returns them; a lookup takes the first entry
  of a name, and the updates keep one entry per name.

  The server runs as an unprivileged user, and a namespace directory can deny it a
  permission: an \<open>Unreadable\<close> directory lacks the read permission (its entries can be
  used by their names, but \<^verbatim>\<open>fs.readdir\<close> fails), an \<open>Unsearchable\<close> one lacks the search
  permission (\<^verbatim>\<open>fs.readdir\<close> returns the names, and every call on a path below the
  directory fails); both fail with \<^verbatim>\<open>EACCES\<close>.

  Every path of the server is \<^verbatim>\<open>path.join(DATA_DIR, d)\<close> or \<^verbatim>\<open>path.join(DATA_DIR, d, f)\<close>:
  a path is the pair of the two names. A file holds text: what
  \<^verbatim>\<open>fs.writeFile(p, text, 'utf-8')\<close> stored is what \<^verbatim>\<open>fs.readFile(p, 'utf-8')\<close> returns. The
  calls fail as the file system makes them fail (a missing entry, a file where a directory
  is needed and the reverse, a permission that is denied); failures of the device are not
  modelled.
\<close>

datatype entry = File jsstring | Subdir

type_synonym directory = "(jsstring \<times> entry) list"

datatype top_entry =
  Namespace directory | Unreadable directory | Unsearchable directory | TopFile

type_synonym data_dir = "(jsstring \<times> top_entry) list"

type_synonym path = "jsstring \<times> jsstring"


text \<open>The entries of a directory, for a call on a path below it.\<close>

definition namespace_of :: "data_dir \<Rightarrow> jsstring \<Rightarrow> js_error + directory" where
  "namespace_of fs d =
     (case map_of fs d of
        None \<Rightarrow> Inl ENOENT
      | Some TopFile \<Rightarrow> Inl ENOTDIR
      | Some (Unsearchable es) \<Rightarrow> Inl EACCES
      | Some (Unreadable es) \<Rightarrow> Inr es
      | Some (Namespace es) \<Rightarrow> Inr es)"


definition fs_readdir :: "data_dir \<Rightarrow> jsstring \<Rightarrow> js_error + jsstring list" where
  "fs_readdir fs d =
     (case map_of fs d of
        None \<Rightarrow> Inl ENOENT
      | Some TopFile \<Rightarrow> Inl ENOTDIR
      | Some (Unreadable es) \<Rightarrow> Inl EACCES
      | Some (Unsearchable es) \<Rightarrow> Inr (map fst es)
      | Some (Namespace es) \<Rightarrow> Inr (map fst es))"

definition fs_lookup :: "data_dir \<Rightarrow> path \<Rightarrow> js_error + entry" where
  "fs_lookup fs p =
     (case namespace_of fs (fst p) of
        Inl e \<Rightarrow> Inl e
      | Inr es \<Rightarrow> (case map_of es (snd p) of None \<Rightarrow> Inl ENOENT | Some x \<Rightarrow> Inr x))"

definition fs_access :: "data_dir \<Rightarrow> path \<Rightarrow> js_error + unit" where
  "fs_access fs p = (case fs_lookup fs p of Inl e \<Rightarrow> Inl e | Inr x \<Rightarrow> Inr ())"


definition fs_readFile :: "data_dir \<Rightarrow> path \<Rightarrow> js_error + jsstring" where
  "fs_readFile fs p =
     (case fs_lookup fs p of
        Inl e \<Rightarrow> Inl e
      | Inr Subdir \<Rightarrow> Inl EISDIR
      | Inr (File t) \<Rightarrow> Inr t)"

text \<open>The two updates of a namespace directory: placing an entry at a path, removing one.\<close>

definition on_namespace :: "jsstring \<Rightarrow> (directory \<Rightarrow> directory) \<Rightarrow> data_dir \<Rightarrow> data_dir" where
  "on_namespace d f fs =
     AList.map_entry d
       (\<lambda>n. case n of
              Namespace es \<Rightarrow> Namespace (f es)
            | Unreadable es \<Rightarrow> Unreadable (f es)
            | Unsearchable es \<Rightarrow> Unsearchable (f es)
            | TopFile \<Rightarrow> TopFile) fs"

definition fs_put :: "path \<Rightarrow> entry \<Rightarrow> data_dir \<Rightarrow> data_dir" where
  "fs_put p x fs = on_namespace (fst p) (AList.update (snd p) x) fs"

definition fs_remove :: "path \<Rightarrow> data_dir \<Rightarrow> data_dir" where
  "fs_remove p fs = on_namespace (fst p) (AList.delete (snd p)) fs"

definition fs_writeFile :: "data_dir \<Rightarrow> path \<Rightarrow> jsstring \<Rightarrow> js_error + data_dir" where
  "fs_writeFile fs p t =
     (case namespace_of fs (fst p) of
        Inl e \<Rightarrow> Inl e
      | Inr es \<Rightarrow>
          (case map_of es (snd p) of
             Some Subdir \<Rightarrow> Inl EISDIR
           | _ \<Rightarrow> Inr (fs_put p (File t) fs)))"

definition fs_unlink :: "data_dir \<Rightarrow> path \<Rightarrow> js_error + data_dir" where
  "fs_unlink fs p =
     (case fs_lookup fs p of
        Inl e \<Rightarrow> Inl e
      | Inr Subdir \<Rightarrow> Inl EISDIR
      | Inr (File t) \<Rightarrow> Inr (fs_remove p fs))"



section \<open>The server state\<close>

text \<open>
  An entry of the registry is the object \<^verbatim>\<open>{userId, filename}\<close>; the rebuild at startup
  stores \<^verbatim>\<open>meta.userId\<close>, which is \<^verbatim>\<open>undefined\<close> (\<open>None\<close>) when the sidecar has no such field.
\<close>

record fileInfo =
  info_userId :: "jsstring option"
  info_filename :: jsstring

record server =
  files :: data_dir
  publicFilesRegistry :: "jsstring \<rightharpoonup> fileInfo"
  entropy :: rng

text \<open>
  \<^verbatim>\<open>getUserDataDir\<close> is the name of the namespace directory, the first 16 characters of
  the hash; \<^verbatim>\<open>getMetadataPath\<close> is the path of the sidecar of a file.
\<close>

definition getUserDataDir :: "runtime \<Rightarrow> jsstring \<Rightarrow> jsstring" where
  "getUserDataDir E uid = take 16 (sha256_hex E uid)"

definition getMetadataPath :: "runtime \<Rightarrow> jsstring \<Rightarrow> jsstring \<Rightarrow> path" where
  "getMetadataPath E uid filename = (getUserDataDir E uid, js ''.'' @ filename @ js ''.meta.json'')"

text \<open>
  \<^verbatim>\<open>getFileMetadata\<close> returns what \<^verbatim>\<open>JSON.parse\<close> returns, whatever it is, and the default
  object when the read or the parse throws.
\<close>

definition default_metadata :: metadata where
  "default_metadata = \<lparr>isPublic = False, publicId = None, userId = None\<rparr>"

definition getFileMetadata :: "runtime \<Rightarrow> data_dir \<Rightarrow> jsstring \<Rightarrow> jsstring \<Rightarrow> json" where
  "getFileMetadata E fs uid filename =
     (case fs_readFile fs (getMetadataPath E uid filename) of
        Inl e \<Rightarrow> JObject default_metadata
      | Inr data \<Rightarrow> (case JSON_parse E data of None \<Rightarrow> JObject default_metadata | Some v \<Rightarrow> v))"

definition saveFileMetadata ::
  "runtime \<Rightarrow> data_dir \<Rightarrow> jsstring \<Rightarrow> jsstring \<Rightarrow> json \<Rightarrow> js_error + data_dir" where
  "saveFileMetadata E fs uid filename v =
     fs_writeFile fs (getMetadataPath E uid filename) (JSON_stringify E v)"

text \<open>
  The test \<^verbatim>\<open>metadata.isPublic && metadata.publicId\<close> on the properties read, with the
  public id it lets through: the id must be neither \<^verbatim>\<open>null\<close> nor the empty string.
\<close>

definition public_token :: "metadata \<Rightarrow> jsstring option" where
  "public_token m =
     (if isPublic m then (case publicId m of None \<Rightarrow> None | Some p \<Rightarrow> if p = [] then None else Some p)
      else None)"

section \<open>Rebuilding the registry at startup\<close>

text \<open>
  \<^verbatim>\<open>loadPublicFilesRegistry\<close>: the two loops, over the entries of the data directory and
  over the files of each. One \<^verbatim>\<open>try\<close> encloses both: the first exception (of a call of
  the file system, of \<^verbatim>\<open>JSON.parse\<close>, of \<^verbatim>\<open>meta.isPublic\<close> on \<^verbatim>\<open>null\<close>) ends the scan, and
  the registry keeps what was set before it. The loops return the exception, if any, with
  the registry.
\<close>

fun load_files ::
  "runtime \<Rightarrow> data_dir \<Rightarrow> jsstring \<Rightarrow> jsstring list \<Rightarrow> (jsstring \<rightharpoonup> fileInfo)
     \<Rightarrow> js_error option \<times> (jsstring \<rightharpoonup> fileInfo)" where
  "load_files E fs userHash [] reg = (None, reg)"
| "load_files E fs userHash (file # rest) reg =
     (if endsWith file (js ''.meta.json'') then
        (case fs_readFile fs (userHash, file) of
           Inl e \<Rightarrow> (Some e, reg)
         | Inr data \<Rightarrow>
             (case JSON_parse E data of
                None \<Rightarrow> (Some SyntaxError, reg)
              | Some meta \<Rightarrow>
                  (case get_properties meta of
                     Inl e \<Rightarrow> (Some e, reg)
                   | Inr props \<Rightarrow>
                       load_files E fs userHash rest
                         (case public_token props of
                            None \<Rightarrow> reg
                          | Some p \<Rightarrow> reg(p \<mapsto> \<lparr>info_userId = userId props,
                                               info_filename = slice_1_minus10 file\<rparr>)))))
      else load_files E fs userHash rest reg)"

fun load_users ::
  "runtime \<Rightarrow> data_dir \<Rightarrow> jsstring list \<Rightarrow> (jsstring \<rightharpoonup> fileInfo)
     \<Rightarrow> js_error option \<times> (jsstring \<rightharpoonup> fileInfo)" where
  "load_users E fs [] reg = (None, reg)"
| "load_users E fs (userHash # rest) reg =
     (case fs_readdir fs userHash of
        Inl e \<Rightarrow> (Some e, reg)
      | Inr names \<Rightarrow>
          (case load_files E fs userHash names reg of
             (Some e, reg') \<Rightarrow> (Some e, reg')
           | (None, reg') \<Rightarrow> load_users E fs rest reg'))"

definition loadPublicFilesRegistry :: "runtime \<Rightarrow> server \<Rightarrow> server" where
  "loadPublicFilesRegistry E s =
     s\<lparr>publicFilesRegistry :=
         snd (load_users E (files s) (map fst (files s)) (publicFilesRegistry s))\<rparr>"

section \<open>The request handlers\<close>

text \<open>
  A response is the status with the error message of \<^verbatim>\<open>res.status(n).json({error: m})\<close>, or
  the body of a successful \<^verbatim>\<open>res.json\<close>. Each handler returns its response and the state
  it leaves.
\<close>

record file_detail =
  detail_name :: jsstring
  detail_size :: nat
  detail_isPublic :: bool
  detail_publicId :: "jsstring option"

datatype response =
    Error nat string
  | FileList "file_detail list"
  | FileContent jsstring jsstring
  | Deleted
  | Renamed jsstring
  | Shared jsstring jsstring
  | Unshared
  | PublicContent jsstring jsstring


fun promise_all :: "('a \<Rightarrow> js_error + 'b) \<Rightarrow> 'a list \<Rightarrow> js_error + 'b list" where
  "promise_all f [] = Inr []"
| "promise_all f (x # xs) =
     (case f x of
        Inl e \<Rightarrow> Inl e
      | Inr y \<Rightarrow> (case promise_all f xs of Inl e \<Rightarrow> Inl e | Inr ys \<Rightarrow> Inr (y # ys)))"


text \<open>\<^verbatim>\<open>GET /api/files/:filename\<close>.\<close>

definition api_read_file :: "runtime \<Rightarrow> jsstring \<Rightarrow> jsstring \<Rightarrow> server \<Rightarrow> response \<times> server" where
  "api_read_file E uid filename s =
     (if \<not> isValidFilename filename then (Error 400 ''Invalid filename'', s)
      else
        (case fs_readFile (files s) (getUserDataDir E uid, filename) of
           Inl e \<Rightarrow> (Error 404 ''File not found'', s)
         | Inr encryptedContent \<Rightarrow>
             (case decrypt E encryptedContent uid of
                Inl e \<Rightarrow> (Error 404 ''File not found'', s)
              | Inr content \<Rightarrow> (FileContent filename content, s))))"

text \<open>
  \<^verbatim>\<open>DELETE /api/files/:filename\<close>. The test of the metadata comes before \<^verbatim>\<open>fs.unlink\<close>, and
  its \<^verbatim>\<open>TypeError\<close> goes to the \<^verbatim>\<open>catch\<close> of the handler.
\<close>

definition api_delete_file :: "runtime \<Rightarrow> jsstring \<Rightarrow> jsstring \<Rightarrow> server \<Rightarrow> response \<times> server" where
  "api_delete_file E uid filename s =
     (if \<not> isValidFilename filename then (Error 400 ''Invalid filename'', s)
      else
        (let metadata = getFileMetadata E (files s) uid filename
         in case get_properties metadata of
              Inl e \<Rightarrow> (Error 500 ''Failed to delete file'', s)
            | Inr props \<Rightarrow>
                (let s1 = (case public_token props of
                             None \<Rightarrow> s
                           | Some p \<Rightarrow>
                               s\<lparr>publicFilesRegistry := (publicFilesRegistry s)(p := None)\<rparr>)
                 in case fs_unlink (files s1) (getUserDataDir E uid, filename) of
                      Inl e \<Rightarrow> (Error 500 ''Failed to delete file'', s1)
                    | Inr fs1 \<Rightarrow>
                        (case fs_unlink fs1 (getMetadataPath E uid filename) of
                           Inl e \<Rightarrow> (Deleted, s1\<lparr>files := fs1\<rparr>)
                         | Inr fs2 \<Rightarrow> (Deleted, s1\<lparr>files := fs2\<rparr>)))))"


text \<open>
  \<^verbatim>\<open>POST /api/files/:filename/share\<close>. The public id is generated before the three
  assignments to the metadata.
\<close>

definition api_share_file :: "runtime \<Rightarrow> jsstring \<Rightarrow> jsstring \<Rightarrow> server \<Rightarrow> response \<times> server" where
  "api_share_file E uid filename s =
     (if \<not> isValidFilename filename then (Error 400 ''Invalid filename'', s)
      else
        (case fs_access (files s) (getUserDataDir E uid, filename) of
           Inl e \<Rightarrow> (Error 404 ''File not found'', s)
         | Inr ok \<Rightarrow>
             (let metadata = getFileMetadata E (files s) uid filename
              in case get_properties metadata of
                   Inl e \<Rightarrow> (Error 500 ''Failed to share file'', s)
                 | Inr props \<Rightarrow>
                     (case public_token props of
                        Some p \<Rightarrow> (Shared p (js ''/public/'' @ p), s)
                      | None \<Rightarrow>
                          (case generatePublicId (entropy s) of
                             (newId, r) \<Rightarrow>
                               (case set_properties
                                       (\<lambda>m. m\<lparr>isPublic := True, publicId := Some newId,
                                               userId := Some uid\<rparr>) metadata of
                                  Inl e \<Rightarrow> (Error 500 ''Failed to share file'', s\<lparr>entropy := r\<rparr>)
                                | Inr metadata' \<Rightarrow>
                                    (case saveFileMetadata E (files s) uid filename metadata' of
                                       Inl e \<Rightarrow>
                                         (Error 500 ''Failed to share file'', s\<lparr>entropy := r\<rparr>)
                                     | Inr fs1 \<Rightarrow>
                                         (Shared newId (js ''/public/'' @ newId),
                                          s\<lparr>files := fs1,
                                            publicFilesRegistry := (publicFilesRegistry s)
                                              (newId \<mapsto> \<lparr>info_userId = Some uid,
                                                       info_filename = filename\<rparr>),
                                            entropy := r\<rparr>))))))))"

text \<open>
  \<^verbatim>\<open>POST /api/files/:filename/unshare\<close>. \<open>unshare_trace\<close> returns the response with the
  states the handler goes through, one after each of its two effects (the registry
  statement, the write of the metadata), as far as it gets; \<open>api_unshare_file\<close> returns
  the last of them.
\<close>

definition unshare_trace ::
  "runtime \<Rightarrow> jsstring \<Rightarrow> jsstring \<Rightarrow> server \<Rightarrow> response \<times> server list" where
  "unshare_trace E uid filename s =
     (if \<not> isValidFilename filename then (Error 400 ''Invalid filename'', [])
      else
        (case fs_access (files s) (getUserDataDir E uid, filename) of
           Inl e \<Rightarrow> (Error 404 ''File not found'', [])
         | Inr ok \<Rightarrow>
             (let metadata = getFileMetadata E (files s) uid filename
              in case get_properties metadata of
                   Inl e \<Rightarrow> (Error 500 ''Failed to unshare file'', [])
                 | Inr props \<Rightarrow>
                     (let s1 = (case public_token props of
                                  None \<Rightarrow> s
                                | Some p \<Rightarrow>
                                    s\<lparr>publicFilesRegistry := (publicFilesRegistry s)(p := None)\<rparr>)
                      in case set_properties (\<lambda>m. m\<lparr>isPublic := False, publicId := None\<rparr>)
                                metadata of
                           Inl e \<Rightarrow> (Error 500 ''Failed to unshare file'', [s1])
                         | Inr metadata' \<Rightarrow>
                             (case saveFileMetadata E (files s1) uid filename metadata' of
                                Inl e \<Rightarrow> (Error 500 ''Failed to unshare file'', [s1])
                              | Inr fs1 \<Rightarrow> (Unshared, [s1, s1\<lparr>files := fs1\<rparr>]))))))"

definition api_unshare_file :: "runtime \<Rightarrow> jsstring \<Rightarrow> jsstring \<Rightarrow> server \<Rightarrow> response \<times> server" where
  "api_unshare_file E uid filename s =
     (case unshare_trace E uid filename s of (res, trace) \<Rightarrow> (res, last (s # trace)))"

text \<open>
  \<^verbatim>\<open>GET /api/public/:publicId\<close>. \<open>publicId_format\<close> is the test of \<^verbatim>\<open>/^[a-f0-9]{32}$/\<close>;
  \<open>resolvePublic\<close> is the first half of the handler, the check of the format and the
  lookup in the registry. A registry entry without identity makes \<^verbatim>\<open>getUserDataDir\<close>
  throw.
\<close>

definition publicId_format :: "jsstring \<Rightarrow> bool" where
  "publicId_format p =
     (length p = 32 \<and> list_all (\<lambda>c. (0x61 \<le> c \<and> c \<le> 0x66) \<or> (0x30 \<le> c \<and> c \<le> 0x39)) p)"

definition resolvePublic :: "server \<Rightarrow> jsstring \<Rightarrow> response + fileInfo" where
  "resolvePublic s pid =
     (if \<not> publicId_format pid then Inl (Error 400 ''Invalid public ID format'')
      else
        (case publicFilesRegistry s pid of
           None \<Rightarrow> Inl (Error 404 ''Public file not found'')
         | Some info \<Rightarrow> Inr info))"

definition api_public_file :: "runtime \<Rightarrow> jsstring \<Rightarrow> server \<Rightarrow> response \<times> server" where
  "api_public_file E pid s =
     (case resolvePublic s pid of
        Inl res \<Rightarrow> (res, s)
      | Inr info \<Rightarrow>
          (case info_userId info of
             None \<Rightarrow> (Error 404 ''Public file not found or no longer available'', s)
           | Some uid \<Rightarrow>
               (case fs_readFile (files s) (getUserDataDir E uid, info_filename info) of
                  Inl e \<Rightarrow> (Error 404 ''Public file not found or no longer available'', s)
                | Inr encryptedContent \<Rightarrow>
                    (case decrypt E encryptedContent uid of
                       Inl e \<Rightarrow> (Error 404 ''Public file not found or no longer available'', s)
                     | Inr content \<Rightarrow> (PublicContent (info_filename info) content, s)))))"

section \<open>Notions of the statements\<close>

text \<open>
  A file is shared with the token \<open>p\<close> when the test \<^verbatim>\<open>metadata.isPublic && metadata.publicId\<close>
  on its metadata neither throws nor fails, \<open>p\<close> being the public id: the metadata is then
  an object.
\<close>

definition shared_token :: "json \<Rightarrow> jsstring option" where
  "shared_token v = (case get_properties v of Inl e \<Rightarrow> None | Inr m \<Rightarrow> public_token m)"


section \<open>A small instance of the runtime library\<close>

text \<open>
  An instance that meets \<open>runtime_ok\<close> and can be evaluated, for the concrete inputs
  of the theorems: the key derivation pads and cuts, the cipher adds the sum of the key
  bytes to every byte and its tag is the sum of key, nonce and ciphertext, base64 writes
  one character per byte, the hash appends zeros, and the JSON text of a metadata object
  starts with \<^verbatim>\<open>{\<close>, a flag and the length of the public id in unary; the other values
  have the texts \<^verbatim>\<open>null\<close>, \<^verbatim>\<open>0\<close> and \<^verbatim>\<open>[]\<close>.
\<close>

definition demo_tag :: "buffer \<Rightarrow> buffer \<Rightarrow> buffer \<Rightarrow> buffer" where
  "demo_tag key iv encrypted = replicate 16 (sum_list (key @ iv @ encrypted))"

definition demo_user :: "bool \<Rightarrow> jsstring option \<Rightarrow> jsstring \<Rightarrow> metadata option" where
  "demo_user flag pid rest =
     (case rest of
        [] \<Rightarrow> None
      | c # u \<Rightarrow>
          if c = 0x6E \<and> u = [] then Some \<lparr>isPublic = flag, publicId = pid, userId = None\<rparr>
          else if c = 0x73 then Some \<lparr>isPublic = flag, publicId = pid, userId = Some u\<rparr>
          else None)"

definition demo_object_text :: "metadata \<Rightarrow> jsstring" where
  "demo_object_text m =
     0x7B # (if isPublic m then 0x74 else 0x66)
       # (case publicId m of None \<Rightarrow> [0x6E]
          | Some p \<Rightarrow> 0x73 # replicate (length p) 0x31 @ [0x30] @ p)
       @ (case userId m of None \<Rightarrow> [0x6E] | Some u \<Rightarrow> 0x73 # u)"

definition demo_object :: "jsstring \<Rightarrow> metadata option" where
  "demo_object s =
     (case s of
        b # f # k # rest \<Rightarrow>
          if b \<noteq> 0x7B \<or> (f \<noteq> 0x74 \<and> f \<noteq> 0x66) then None
          else if k = 0x6E then demo_user (f = 0x74) None rest
          else if k = 0x73 then
            (let n = length (takeWhile (\<lambda>c. c = 0x31) rest)
             in case drop n rest of
                  [] \<Rightarrow> None
                | z # body \<Rightarrow>
                    if z = 0x30 \<and> n \<le> length body
                    then demo_user (f = 0x74) (Some (take n body)) (drop n body)
                    else None)
          else None
      | _ \<Rightarrow> None)"

definition demo_stringify :: "json \<Rightarrow> jsstring" where
  "demo_stringify v =
     (case v of
        JNull \<Rightarrow> js ''null''
      | JPrimitive \<Rightarrow> js ''0''
      | JArray \<Rightarrow> js ''[]''
      | JObject m \<Rightarrow> demo_object_text m)"

definition demo_parse :: "jsstring \<Rightarrow> json option" where
  "demo_parse s =
     (if s = js ''null'' then Some JNull
      else if s = js ''0'' then Some JPrimitive
      else if s = js ''[]'' then Some JArray
      else map_option JObject (demo_object s))"

definition demo_runtime :: runtime where
  "demo_runtime =
     \<lparr>ENCRYPTION_KEY = js ''k'',
      sha256_hex = (\<lambda>s. s @ js ''0000000000000000''),
      pbkdf2Sync = (\<lambda>password salt iterations keylen digest.
         take keylen (password @ salt @ replicate keylen 0)),
      cipher_gcm = (\<lambda>key iv plaintext.
         (map (\<lambda>b. b + sum_list key) plaintext,
          demo_tag key iv (map (\<lambda>b. b + sum_list key) plaintext))),
      decipher_gcm = (\<lambda>key iv tag encrypted.
         if tag = demo_tag key iv encrypted then Some (map (\<lambda>b. b - sum_list key) encrypted)
         else None),
      base64_encode = map ucast,
      base64_decode = map ucast,
      JSON_stringify = demo_stringify,
      JSON_parse = demo_parse\<rparr>"

section \<open>Concrete inputs\<close>

text \<open>
  The random source that counts up from zero, the identity \<^verbatim>\<open>alice\<close>, and a server in
  which her namespace holds the one file \<^verbatim>\<open>a.txt\<close>, not shared.
\<close>

definition demo_rng :: rng where
  "demo_rng = (\<lambda>i. of_nat i)"

definition alice :: jsstring where
  "alice = js ''alice''"

definition demo_server :: server where
  "demo_server =
     \<lparr>files = [(js ''alice00000000000'', Namespace [(js ''a.txt'', File (js ''x''))])],
      publicFilesRegistry = Map.empty,
      entropy = demo_rng\<rparr>"

text \<open>
  The blob that \<open>encrypt\<close> writes for the text \<^verbatim>\<open>hi\<close> of \<open>alice\<close> (64 bytes of salt, 16 of
  nonce, the tag, two bytes of ciphertext), the same blob with its last byte changed, and
  a server whose file \<^verbatim>\<open>a.txt\<close> holds the changed blob.
\<close>

definition genuine_blob :: jsstring where
  "genuine_blob =
     base64_encode demo_runtime
       (map of_nat [0..<64] @ map of_nat [64..<80] @ replicate 16 111 @ [202, 203])"

definition tampered_blob :: jsstring where
  "tampered_blob =
     base64_encode demo_runtime
       (map of_nat [0..<64] @ map of_nat [64..<80] @ replicate 16 111 @ [202, 204])"

definition tampered_server :: server where
  "tampered_server =
     \<lparr>files = [(js ''alice00000000000'', Namespace [(js ''a.txt'', File tampered_blob)])],
      publicFilesRegistry = Map.empty,
      entropy = demo_rng\<rparr>"

text \<open>
  The token the first share mints, the metadata of a file shared with it, and the server
  that sharing \<^verbatim>\<open>a.txt\<close> leaves.
\<close>

definition demo_token :: jsstring where
  "demo_token = fst (generatePublicId demo_rng)"

definition shared_metadata :: metadata where
  "shared_metadata = \<lparr>isPublic = True, publicId = Some demo_token, userId = Some alice\<rparr>"

definition shared_server :: server where
  "shared_server =
     \<lparr>files = [(js ''alice00000000000'',
                Namespace [(js ''a.txt'', File (js ''x'')),
                           (js ''.a.txt.meta.json'',
                            File (JSON_stringify demo_runtime (JObject shared_metadata)))])],
      publicFilesRegistry =
        [demo_token \<mapsto> \<lparr>info_userId = Some alice, info_filename = js ''a.txt''\<rparr>],
      entropy = snd (generatePublicId demo_rng)\<rparr>"

text \<open>
  A data directory as a restart finds it: \<^verbatim>\<open>b.txt\<close> is shared, its sidecar intact; the
  sidecar of \<^verbatim>\<open>a.txt\<close> is corrupt (it holds the one character \<^verbatim>\<open>{\<close>) and is listed first.
\<close>

definition corrupt_first_server :: server where
  "corrupt_first_server =
     \<lparr>files = [(js ''alice00000000000'',
                Namespace [(js ''.a.txt.meta.json'', File (js ''{'')),
                           (js ''.b.txt.meta.json'',
                            File (JSON_stringify demo_runtime (JObject shared_metadata))),
                           (js ''a.txt'', File (js ''x'')),
                           (js ''b.txt'', File (js ''y''))])],
      publicFilesRegistry = Map.empty,
      entropy = demo_rng\<rparr>"

text \<open>The same files, the corrupt sidecar listed after the intact one.\<close>

definition corrupt_last_server :: server where
  "corrupt_last_server =
     \<lparr>files = [(js ''alice00000000000'',
                Namespace [(js ''.b.txt.meta.json'',
                            File (JSON_stringify demo_runtime (JObject shared_metadata))),
                           (js ''.a.txt.meta.json'', File (js ''{'')),
                           (js ''a.txt'', File (js ''x'')),
                           (js ''b.txt'', File (js ''y''))])],
      publicFilesRegistry = Map.empty,
      entropy = demo_rng\<rparr>"







section \<open>Properties of the string functions\<close>

lemma includes_iff: "includes_str s p \<longleftrightarrow> (\<exists>ys zs. s = ys @ p @ zs)"
proof (induction s)
  case Nil
  then show ?case by auto
next
  case (Cons c cs)
  have "(\<exists>ys zs. c # cs = ys @ p @ zs) \<longleftrightarrow> prefix p (c # cs) \<or> (\<exists>ys zs. cs = ys @ p @ zs)"
    (is "?L \<longleftrightarrow> ?P \<or> ?R")
  proof
    assume ?L
    then obtain ys zs where e: "c # cs = ys @ p @ zs" by blast
    show "?P \<or> ?R"
    proof (cases ys)
      case Nil
      with e show ?thesis by (auto simp: prefix_def)
    next
      case (Cons y ys')
      with e have "cs = ys' @ p @ zs" by simp
      then show ?thesis by blast
    qed
  next
    assume "?P \<or> ?R"
    then show ?L
    proof
      assume ?P
      then obtain zs where "c # cs = p @ zs" by (auto simp: prefix_def)
      then have "c # cs = [] @ p @ zs" by simp
      then show ?L by blast
    next
      assume ?R
      then obtain ys zs where "cs = ys @ p @ zs" by blast
      then have "c # cs = (c # ys) @ p @ zs" by simp
      then show ?L by blast
    qed
  qed
  with Cons.IH show ?case by simp
qed

lemma FILENAME_REGEX_iff:
  "FILENAME_REGEX s \<longleftrightarrow> (\<exists>c cs. s = c # cs \<and> alnum c \<and> (\<forall>x \<in> set cs. name_char x))"
  by (cases s) (auto simp: FILENAME_REGEX_def list_all_iff)

lemma FILENAME_REGEX_no_leading_dot:
  assumes "FILENAME_REGEX s"
  shows "\<not> startsWith s (js ''.'') \<and> s \<noteq> js ''.'' \<and> s \<noteq> js ''..''"
  using assms
  by (cases s) (auto simp: FILENAME_REGEX_def startsWith_def js_def alnum_def)

section \<open>Properties of UTF-8\<close>

text \<open>Decoding the encoding of a code point that is not a surrogate returns the code point.\<close>

lemma run_2:
  assumes "0xC2 \<le> b0" "b0 \<le> 0xDF" "0x80 \<le> b1" "b1 \<le> 0xBF"
  shows "utf8_run Start (b0 # b1 # bs) = (b0 mod 32 * 64 + b1 mod 64) # utf8_run Start bs"
  using assms by (auto simp: lead_def)

lemma run_3:
  assumes "0xE0 \<le> b0" "b0 \<le> 0xEF" "0x80 \<le> b1" "b1 \<le> 0xBF" "0x80 \<le> b2" "b2 \<le> 0xBF"
    and "b0 = 0xE0 \<Longrightarrow> 0xA0 \<le> b1" and "b0 = 0xED \<Longrightarrow> b1 \<le> 0x9F"
  shows "utf8_run Start (b0 # b1 # b2 # bs)
         = ((b0 mod 16 * 64 + b1 mod 64) * 64 + b2 mod 64) # utf8_run Start bs"
  using assms by (auto simp: lead_def)

lemma run_4:
  assumes "0xF0 \<le> b0" "b0 \<le> 0xF4" "0x80 \<le> b1" "b1 \<le> 0xBF" "0x80 \<le> b2" "b2 \<le> 0xBF"
    "0x80 \<le> b3" "b3 \<le> 0xBF"
    and "b0 = 0xF0 \<Longrightarrow> 0x90 \<le> b1" and "b0 = 0xF4 \<Longrightarrow> b1 \<le> 0x8F"
  shows "utf8_run Start (b0 # b1 # b2 # b3 # bs)
         = (((b0 mod 8 * 64 + b1 mod 64) * 64 + b2 mod 64) * 64 + b3 mod 64) # utf8_run Start bs"
  using assms by (auto simp: lead_def)

lemma unat_byte: "n < 256 \<Longrightarrow> unat (of_nat n :: 8 word) = n"
  by (simp add: unat_of_nat)

lemma unat_bytes: "\<forall>x \<in> set xs. x < 256 \<Longrightarrow> map unat (map of_nat xs :: 8 word list) = xs"
  by (induction xs) (simp_all add: unat_byte)

lemma mod_offset: "q < m \<Longrightarrow> (k * m + q) mod m = (q::nat)"
  by simp

lemma div_4096: "(n::nat) div 4096 = n div 64 div 64"
  by (simp add: div_mult2_eq [symmetric])

lemma div_262144: "(n::nat) div 262144 = n div 64 div 64 div 64"
  by (simp add: div_mult2_eq [symmetric])

lemma split_64: "(n::nat) = n div 64 * 64 + n mod 64"
  by simp

lemma scalar_roundtrip:
  assumes "cp < 0x110000" "\<not> (0xD800 \<le> cp \<and> cp \<le> 0xDFFF)"
  shows "utf8_run Start (map unat (encode_cp cp) @ rest) = cp # utf8_run Start rest"
proof -
  define a r where "a = cp div 64" and "r = cp mod 64"
  define b q2 where "b = a div 64" and "q2 = a mod 64"
  define c q3 where "c = b div 64" and "q3 = b mod 64"
  have cp: "cp = a * 64 + r" and a: "a = b * 64 + q2" and b: "b = c * 64 + q3"
    unfolding a_def r_def b_def q2_def c_def q3_def by (rule split_64)+
  have r: "r < 64" and q2: "q2 < 64" and q3: "q3 < 64"
    by (simp_all add: r_def q2_def q3_def)
  have mr: "(0x80 + r) mod 64 = r" using mod_offset [of r 64 2] r by simp
  have mq2: "(0x80 + q2) mod 64 = q2" using mod_offset [of q2 64 2] q2 by simp
  have mq3: "(0x80 + q3) mod 64 = q3" using mod_offset [of q3 64 2] q3 by simp
  consider "cp < 0x80" | "0x80 \<le> cp" "cp < 0x800" | "0x800 \<le> cp" "cp < 0x10000"
    | "0x10000 \<le> cp" by linarith
  then show ?thesis
  proof cases
    case 1
    then show ?thesis by (simp add: encode_cp_def unat_byte lead_def)
  next
    case 2
    from 2 cp r have qa: "2 \<le> a" "a < 32" by linarith+
    have "encode_cp cp = map of_nat [0xC0 + a, 0x80 + r]"
      using 2 by (simp add: encode_cp_def a_def r_def)
    moreover have "map unat (map of_nat [0xC0 + a, 0x80 + r] :: 8 word list) = [0xC0 + a, 0x80 + r]"
      by (rule unat_bytes) (use qa r in simp)
    ultimately have enc: "map unat (encode_cp cp) = [0xC0 + a, 0x80 + r]" by simp
    have m: "(0xC0 + a) mod 32 = a" using mod_offset [of a 32 6] qa by simp
    have "utf8_run Start ((0xC0 + a) # (0x80 + r) # rest)
        = ((0xC0 + a) mod 32 * 64 + (0x80 + r) mod 64) # utf8_run Start rest"
      by (rule run_2) (use qa r in simp_all)
    then show ?thesis unfolding enc m mr using cp by simp
  next
    case 3
    from 3 cp a r q2 have qb: "b < 16" by linarith
    have "encode_cp cp = map of_nat [0xE0 + b, 0x80 + q2, 0x80 + r]"
      using 3 by (simp add: encode_cp_def div_4096 a_def b_def q2_def r_def)
    moreover have "map unat (map of_nat [0xE0 + b, 0x80 + q2, 0x80 + r] :: 8 word list)
        = [0xE0 + b, 0x80 + q2, 0x80 + r]"
      by (rule unat_bytes) (use qb q2 r in simp)
    ultimately have enc: "map unat (encode_cp cp) = [0xE0 + b, 0x80 + q2, 0x80 + r]" by simp
    have m: "(0xE0 + b) mod 16 = b" using mod_offset [of b 16 14] qb by simp
    have e0: "0xE0 + b = 0xE0 \<Longrightarrow> 0xA0 \<le> 0x80 + q2" using 3 cp a r by linarith
    have ed: "0xE0 + b = 0xED \<Longrightarrow> 0x80 + q2 \<le> 0x9F" using assms(2) 3 cp a r q2 by linarith
    have "utf8_run Start ((0xE0 + b) # (0x80 + q2) # (0x80 + r) # rest)
        = (((0xE0 + b) mod 16 * 64 + (0x80 + q2) mod 64) * 64 + (0x80 + r) mod 64)
          # utf8_run Start rest"
      by (rule run_3) (use qb q2 r e0 ed in simp_all)
    then show ?thesis unfolding enc m mr mq2 using cp a by simp
  next
    case 4
    from assms(1) cp a b have qc: "c \<le> 4" by linarith
    have "encode_cp cp = map of_nat [0xF0 + c, 0x80 + q3, 0x80 + q2, 0x80 + r]"
      using 4
      by (simp add: encode_cp_def div_4096 div_262144 a_def b_def c_def q2_def q3_def r_def)
    moreover have "map unat (map of_nat [0xF0 + c, 0x80 + q3, 0x80 + q2, 0x80 + r] :: 8 word list)
        = [0xF0 + c, 0x80 + q3, 0x80 + q2, 0x80 + r]"
      by (rule unat_bytes) (use qc q2 q3 r in simp)
    ultimately have enc:
      "map unat (encode_cp cp) = [0xF0 + c, 0x80 + q3, 0x80 + q2, 0x80 + r]" by simp
    have m: "(0xF0 + c) mod 8 = c" using mod_offset [of c 8 30] qc by simp
    have f0: "0xF0 + c = 0xF0 \<Longrightarrow> 0x90 \<le> 0x80 + q3" using 4 cp a b r q2 by linarith
    have f4: "0xF0 + c = 0xF4 \<Longrightarrow> 0x80 + q3 \<le> 0x8F" using assms(1) cp a b by linarith
    have "utf8_run Start ((0xF0 + c) # (0x80 + q3) # (0x80 + q2) # (0x80 + r) # rest)
        = ((((0xF0 + c) mod 8 * 64 + (0x80 + q3) mod 64) * 64 + (0x80 + q2) mod 64) * 64
            + (0x80 + r) mod 64) # utf8_run Start rest"
      by (rule run_4) (use qc q2 q3 r f0 f4 in simp_all)
    then show ?thesis unfolding enc m mr mq2 mq3 using cp a b by simp
  qed
qed

lemma is_high_unat: "is_high c \<longleftrightarrow> 0xD800 \<le> unat c \<and> unat c \<le> 0xDBFF"
  by (simp add: is_high_def word_le_nat_alt)

lemma is_low_unat: "is_low c \<longleftrightarrow> 0xDC00 \<le> unat c \<and> unat c \<le> 0xDFFF"
  by (simp add: is_low_def word_le_nat_alt)

lemma unat_unit_bound: "unat (c :: 16 word) < 0x10000"
  proof -
  have "unat c < 2 ^ LENGTH(16)" by (rule unsigned_less)
  then show ?thesis by simp
qed

lemma units_of_unit:
  assumes "\<not> is_high c" "\<not> is_low c"
  shows "utf8_run Start (map unat (encode_cp (unit_cp c)) @ rest) = unat c # utf8_run Start rest"
    and "utf16_units (unat c) = [c]"
proof -
  have "unat c < 0x110000" using unat_unit_bound [of c] by linarith
  moreover have "\<not> (0xD800 \<le> unat c \<and> unat c \<le> 0xDFFF)"
    using assms unfolding is_high_unat is_low_unat by linarith
  ultimately show "utf8_run Start (map unat (encode_cp (unit_cp c)) @ rest)
      = unat c # utf8_run Start rest"
    using assms by (simp add: unit_cp_def scalar_roundtrip)
  show "utf16_units (unat c) = [c]"
    using unat_unit_bound [of c] by (simp add: utf16_units_def)
qed

lemma units_of_pair:
  assumes "is_high c" "is_low d"
  shows "utf8_run Start (map unat (encode_cp (pair_cp c d)) @ rest)
           = pair_cp c d # utf8_run Start rest"
    and "utf16_units (pair_cp c d) = [c, d]"
proof -
  define h l where "h = unat c - 0xD800" and "l = unat d - 0xDC00"
  have hc: "unat c = 0xD800 + h" and h: "h < 1024"
    using assms(1) unfolding is_high_unat h_def by linarith+
  have ld: "unat d = 0xDC00 + l" and l: "l < 1024"
    using assms(2) unfolding is_low_unat l_def by linarith+
  have p: "pair_cp c d = 0x10000 + (h * 1024 + l)"
    by (simp add: pair_cp_def h_def l_def)
  have "pair_cp c d < 0x110000" "\<not> (0xD800 \<le> pair_cp c d \<and> pair_cp c d \<le> 0xDFFF)"
    using p h l by linarith+
  then show "utf8_run Start (map unat (encode_cp (pair_cp c d)) @ rest)
      = pair_cp c d # utf8_run Start rest"
    by (rule scalar_roundtrip)
  have dv: "(h * 1024 + l) div 1024 = h" and md: "(h * 1024 + l) mod 1024 = l"
    using l by simp_all
  have "(of_nat (0xD800 + h) :: 16 word) = c" "(of_nat (0xDC00 + l) :: 16 word) = d"
    using hc [symmetric] ld [symmetric] by simp_all
  then show "utf16_units (pair_cp c d) = [c, d]"
    unfolding utf16_units_def p using dv md by simp
qed

text \<open>Decoding inverts encoding on the strings without unpaired surrogates.\<close>

lemma utf8_run_encode:
  "isWellFormed s \<Longrightarrow>
     concat (map utf16_units (utf8_run Start (map unat (utf8_encode s) @ rest)))
       = s @ concat (map utf16_units (utf8_run Start rest))"
proof (induction s rule: utf8_encode.induct)
  case 1
  then show ?case by simp
next
  case (2 c)
  then show ?case by (simp add: units_of_unit)
next
  case (3 c d ds)
  show ?case
  proof (cases "is_high c")
    case True
    with "3.prems" have d: "is_low d" and wf: "isWellFormed ds" by simp_all
    from True d wf "3.IH"(1) show ?thesis by (simp add: units_of_pair)
  next
    case False
    with "3.prems" have c: "\<not> is_low c" and wf: "isWellFormed (d # ds)" by simp_all
    from False c wf "3.IH"(2) show ?thesis by (simp add: units_of_unit)
  qed
qed

lemma utf8_roundtrip: "isWellFormed s \<Longrightarrow> utf8_decode (utf8_encode s) = s"
  using utf8_run_encode [of s "[]"] by (simp add: utf8_decode_def)

lemma utf8_lone_surrogate: "utf8_decode (utf8_encode [0xD800]) = [0xFFFD]"
  by (simp add: utf8_decode_def unit_cp_def is_high_def encode_cp_def lead_def utf16_units_def)

section \<open>Properties of the content cipher\<close>

lemma runtime_ok_pbkdf2:
  "runtime_ok E \<Longrightarrow> length (pbkdf2Sync E password salt iterations keylen digest) = keylen"
  by (simp add: runtime_ok_def)

lemma runtime_ok_base64: "runtime_ok E \<Longrightarrow> base64_decode E (base64_encode E bytes) = bytes"
  by (simp add: runtime_ok_def)

lemma runtime_ok_JSON: "runtime_ok E \<Longrightarrow> JSON_parse E (JSON_stringify E v) = Some v"
  by (simp add: runtime_ok_def)

lemma runtime_ok_cipher:
  assumes "runtime_ok E" "length key = 32" "length iv = 16"
    and "cipher_gcm E key iv plaintext = (encrypted, tag)"
  shows "length encrypted = length plaintext \<and> length tag = 16
         \<and> decipher_gcm E key iv tag encrypted = Some plaintext"
proof -
  from assms(1) have "\<forall>key iv plaintext. length key = 32 \<and> length iv = 16 \<longrightarrow>
        (case cipher_gcm E key iv plaintext of (encrypted, tag) \<Rightarrow>
           length encrypted = length plaintext \<and> length tag = 16
           \<and> decipher_gcm E key iv tag encrypted = Some plaintext)"
    by (simp add: runtime_ok_def)
  then have "length key = 32 \<and> length iv = 16 \<longrightarrow>
        (case cipher_gcm E key iv plaintext of (encrypted, tag) \<Rightarrow>
           length encrypted = length plaintext \<and> length tag = 16
           \<and> decipher_gcm E key iv tag encrypted = Some plaintext)"
    by (elim allE)
  with assms(2-4) show ?thesis by simp
qed

lemma length_randomBytes: "length (fst (randomBytes n r)) = n"
  by (simp add: randomBytes_def)

lemma decrypt_fields:
  assumes "length salt = 64" "length iv = 16" "length tag = 16"
    and "base64_decode E blob = salt @ iv @ tag @ encrypted"
  shows "decrypt E blob uid =
     (case decipher_gcm E (getKey E (getUserEncryptionKey E uid) salt) iv tag encrypted of
        None \<Rightarrow> Inl AuthenticationError
      | Some plaintext \<Rightarrow> Inr (utf8_decode plaintext))"
  using assms
  by (simp add: decrypt_def subarray_def SALT_LENGTH_def IV_LENGTH_def TAG_LENGTH_def
      TAG_POSITION_def ENCRYPTED_POSITION_def Let_def)

lemma decrypt_encrypt:
  assumes "runtime_ok E"
  shows "decrypt E (fst (encrypt E text uid r)) uid = Inr (utf8_decode (utf8_encode text))"
proof -
  obtain salt r1 where s: "randomBytes SALT_LENGTH r = (salt, r1)" by (cases "randomBytes SALT_LENGTH r")
  obtain iv r2 where i: "randomBytes IV_LENGTH r1 = (iv, r2)" by (cases "randomBytes IV_LENGTH r1")
  define key where "key = getKey E (getUserEncryptionKey E uid) salt"
  obtain encrypted tag where c: "cipher_gcm E key iv (utf8_encode text) = (encrypted, tag)"
    by (cases "cipher_gcm E key iv (utf8_encode text)")
  have ls: "length salt = 64" using length_randomBytes [of SALT_LENGTH r] s
    by (simp add: SALT_LENGTH_def)
  have li: "length iv = 16" using length_randomBytes [of IV_LENGTH r1] i
    by (simp add: IV_LENGTH_def)
  have lk: "length key = 32" using assms by (simp add: key_def getKey_def runtime_ok_pbkdf2)
  from runtime_ok_cipher [OF assms lk li c] have lt: "length tag = 16"
    and d: "decipher_gcm E key iv tag encrypted = Some (utf8_encode text)" by simp_all
  have e: "fst (encrypt E text uid r) = base64_encode E (salt @ iv @ tag @ encrypted)"
    using s i c by (simp add: encrypt_def Let_def key_def)
  have b: "base64_decode E (fst (encrypt E text uid r)) = salt @ iv @ tag @ encrypted"
    unfolding e using assms by (simp add: runtime_ok_base64)
  show ?thesis
    using decrypt_fields [OF ls li lt b, of uid] d by (simp add: key_def)
qed

section \<open>Properties of the file system\<close>

lemma namespace_of_on_namespace:
  "namespace_of (on_namespace d f fs) d' =
     (if d' = d then (case namespace_of fs d of Inl e \<Rightarrow> Inl e | Inr es \<Rightarrow> Inr (f es))
      else namespace_of fs d')"
  by (auto simp: namespace_of_def on_namespace_def map_of_map_entry
      split: option.splits top_entry.splits)

lemma lookup_put:
  "fs_lookup (fs_put p x fs) q =
     (if q = p then (case namespace_of fs (fst p) of Inl e \<Rightarrow> Inl e | Inr es \<Rightarrow> Inr x)
      else fs_lookup fs q)"
  by (cases p; cases q)
    (auto simp: fs_lookup_def fs_put_def namespace_of_on_namespace update_conv'
      split: sum.splits option.splits)

lemma lookup_remove:
  "fs_lookup (fs_remove p fs) q =
     (if q = p then (case namespace_of fs (fst p) of Inl e \<Rightarrow> Inl e | Inr es \<Rightarrow> Inl ENOENT)
      else fs_lookup fs q)"
  by (cases p; cases q)
    (auto simp: fs_lookup_def fs_remove_def namespace_of_on_namespace delete_conv'
      split: sum.splits option.splits)

lemma lookup_namespace: "fs_lookup fs p = Inr x \<Longrightarrow> \<exists>es. namespace_of fs (fst p) = Inr es"
  by (auto simp: fs_lookup_def split: sum.splits)

lemma lookup_writeFile:
  assumes "fs_writeFile fs p t = Inr fs'"
  shows "fs_lookup fs' q = (if q = p then Inr (File t) else fs_lookup fs q)"
  using assms
  by (auto simp: fs_writeFile_def lookup_put split: sum.splits option.splits entry.splits)

lemma writeFile_ok:
  assumes "fs_lookup fs q = Inr x" "fst q = fst p" "fs_lookup fs p \<noteq> Inr Subdir"
  shows "\<exists>fs'. fs_writeFile fs p t = Inr fs'"
  using assms
  by (auto simp: fs_writeFile_def fs_lookup_def split: sum.splits option.splits entry.splits)

lemma lookup_unlink:
  assumes "fs_unlink fs p = Inr fs'"
  shows "fs_lookup fs' q = (if q = p then Inl ENOENT else fs_lookup fs q)"
  using assms lookup_namespace [of fs p]
  by (auto simp: fs_unlink_def lookup_remove split: sum.splits entry.splits)





section \<open>Properties of the metadata sidecars\<close>

lemma valid_first_char: "isValidFilename f \<Longrightarrow> \<exists>c cs. f = c # cs \<and> alnum c"
  by (cases f) (auto simp: isValidFilename_def FILENAME_REGEX_def split: if_splits)

lemma metadata_path_not_content:
  assumes "isValidFilename f"
  shows "getMetadataPath E uid g \<noteq> (d, f)"
proof -
  from valid_first_char [OF assms] obtain c cs where f: "f = c # cs" and c: "alnum c" by blast
  from c have "c \<noteq> 0x2E" by (auto simp: alnum_def)
  then show ?thesis by (simp add: getMetadataPath_def js_def f)
qed


lemma fst_metadata_path: "fst (getMetadataPath E uid f) = getUserDataDir E uid"
  by (simp add: getMetadataPath_def)



lemma public_token_default: "public_token default_metadata = None"
  by (simp add: public_token_def default_metadata_def)

lemma shared_token_default: "shared_token (JObject default_metadata) = None"
  by (simp add: shared_token_def get_properties_def public_token_default)

lemma shared_token_object:
  "shared_token v = Some p \<longleftrightarrow> (\<exists>m. v = JObject m \<and> public_token m = Some p)"
  by (cases v)
    (simp_all add: shared_token_def get_properties_def public_token_def no_properties_def)

lemma get_properties_object: "get_properties (JObject m) = Inr m"
  by (simp add: get_properties_def)

lemma get_properties_null: "get_properties v = Inl e \<longleftrightarrow> v = JNull \<and> e = TypeError"
  by (cases v) (auto simp: get_properties_def)

lemma getFileMetadata_file:
  assumes "getFileMetadata E fs uid f \<noteq> JObject default_metadata"
  shows "\<exists>t. fs_lookup fs (getMetadataPath E uid f) = Inr (File t)
           \<and> JSON_parse E t = Some (getFileMetadata E fs uid f)"
proof (cases "fs_lookup fs (getMetadataPath E uid f)")
  case (Inl e)
  with assms show ?thesis by (simp add: getFileMetadata_def fs_readFile_def)
next
  case (Inr x)
  with assms show ?thesis
    by (cases x)
      (auto simp: getFileMetadata_def fs_readFile_def split: option.splits)
qed

lemma shared_token_file:
  assumes "shared_token (getFileMetadata E fs uid f) = Some p"
  shows "\<exists>t. fs_lookup fs (getMetadataPath E uid f) = Inr (File t)"
proof -
  from assms have "getFileMetadata E fs uid f \<noteq> JObject default_metadata"
    by (auto simp: shared_token_default)
  from getFileMetadata_file [OF this] show ?thesis by blast
qed

lemma saveFileMetadata_lookup:
  assumes "saveFileMetadata E fs uid f v = Inr fs'"
  shows "fs_lookup fs' q =
     (if q = getMetadataPath E uid f then Inr (File (JSON_stringify E v)) else fs_lookup fs q)"
  using assms unfolding saveFileMetadata_def by (rule lookup_writeFile)

lemma getFileMetadata_saved:
  assumes "runtime_ok E" "saveFileMetadata E fs uid f v = Inr fs'"
  shows "getFileMetadata E fs' uid f = v"
  using assms
  by (simp add: getFileMetadata_def fs_readFile_def saveFileMetadata_lookup runtime_ok_JSON)

lemma saveFileMetadata_ok:
  assumes "fs_access fs (getUserDataDir E uid, f) = Inr ()"
    and "fs_lookup fs (getMetadataPath E uid f) \<noteq> Inr Subdir"
  shows "\<exists>fs'. saveFileMetadata E fs uid f v = Inr fs'"
proof -
  from assms(1) obtain x where "fs_lookup fs (getUserDataDir E uid, f) = Inr x"
    by (cases "fs_lookup fs (getUserDataDir E uid, f)") (simp_all add: fs_access_def)
  then show ?thesis
    unfolding saveFileMetadata_def
    by (rule writeFile_ok) (simp_all add: fst_metadata_path assms(2))
qed

section \<open>Properties of public ids\<close>

lemma hex_digit_range:
  assumes "d < 16"
  shows "(0x61 \<le> hex_digit d \<and> hex_digit d \<le> 0x66) \<or> (0x30 \<le> hex_digit d \<and> hex_digit d \<le> 0x39)"
proof -
  have u: "unat (hex_digit d) = (if d < 10 then 0x30 + d else 0x57 + d)"
    using assms by (simp add: hex_digit_def unat_of_nat)
  show ?thesis unfolding word_le_nat_alt u using assms by simp
qed

lemma byte_nibbles: "unat (b :: 8 word) div 16 < 16" "unat b mod 16 < 16"
proof -
  have "unat b < 2 ^ LENGTH(8)" by (rule unsigned_less)
  then have "unat b < 16 * 16" by simp
  then show "unat b div 16 < 16" by (simp only: less_mult_imp_div_less)
  show "unat b mod 16 < 16" by simp
qed

lemma hex_encode_format:
  "list_all (\<lambda>c. (0x61 \<le> c \<and> c \<le> 0x66) \<or> (0x30 \<le> c \<and> c \<le> 0x39)) (hex_encode bs)"
  by (induction bs) (simp_all add: hex_encode_def hex_digit_range byte_nibbles)

lemma length_hex_encode: "length (hex_encode bs) = 2 * length bs"
  by (induction bs) (simp_all add: hex_encode_def)

lemma generatePublicId_format: "publicId_format (fst (generatePublicId r))"
  by (simp add: generatePublicId_def randomBytes_def publicId_format_def hex_encode_format
      length_hex_encode)

lemma publicId_format_nonempty: "publicId_format p \<Longrightarrow> p \<noteq> []"
  by (auto simp: publicId_format_def)

section \<open>Properties of share and unshare\<close>



lemma share_fresh:
  assumes "isValidFilename f" "fs_access (files s) (getUserDataDir E uid, f) = Inr ()"
    and "getFileMetadata E (files s) uid f = JObject m" "public_token m = None"
    and "saveFileMetadata E (files s) uid f
           (JObject (m\<lparr>isPublic := True, publicId := Some (fst (generatePublicId (entropy s))),
                       userId := Some uid\<rparr>)) = Inr fs1"
  shows "api_share_file E uid f s =
     (Shared (fst (generatePublicId (entropy s))) (js ''/public/'' @ fst (generatePublicId (entropy s))),
      s\<lparr>files := fs1,
        publicFilesRegistry := (publicFilesRegistry s)
          (fst (generatePublicId (entropy s)) \<mapsto> \<lparr>info_userId = Some uid, info_filename = f\<rparr>),
        entropy := snd (generatePublicId (entropy s))\<rparr>)"
  using assms
  by (cases "generatePublicId (entropy s)")
    (simp add: api_share_file_def get_properties_object set_properties_def)


lemma unshare_trace_object:
  assumes "isValidFilename f" "fs_access (files s) (getUserDataDir E uid, f) = Inr ()"
    and "getFileMetadata E (files s) uid f = JObject m"
    and "fs_lookup (files s) (getMetadataPath E uid f) \<noteq> Inr Subdir"
  shows "\<exists>fs1. saveFileMetadata E (files s) uid f
                (JObject (m\<lparr>isPublic := False, publicId := None\<rparr>)) = Inr fs1
          \<and> unshare_trace E uid f s =
               (Unshared,
                [case public_token m of
                   None \<Rightarrow> s
                 | Some p \<Rightarrow> s\<lparr>publicFilesRegistry := (publicFilesRegistry s)(p := None)\<rparr>,
                 (case public_token m of
                   None \<Rightarrow> s
                 | Some p \<Rightarrow> s\<lparr>publicFilesRegistry := (publicFilesRegistry s)(p := None)\<rparr>)
                   \<lparr>files := fs1\<rparr>])"
proof -
  from saveFileMetadata_ok [OF assms(2,4)] obtain fs1 where
    "saveFileMetadata E (files s) uid f
       (JObject (m\<lparr>isPublic := False, publicId := None\<rparr>)) = Inr fs1"
    by blast
  with assms(1-3) show ?thesis
    by (cases "public_token m")
      (simp_all add: unshare_trace_def Let_def get_properties_object set_properties_def)
qed

lemma unshare_trace_shared:
  assumes "isValidFilename f" "fs_access (files s) (getUserDataDir E uid, f) = Inr ()"
    and "shared_token (getFileMetadata E (files s) uid f) = Some p"
  shows "\<exists>m fs1. getFileMetadata E (files s) uid f = JObject m
          \<and> saveFileMetadata E (files s) uid f
                (JObject (m\<lparr>isPublic := False, publicId := None\<rparr>)) = Inr fs1
          \<and> unshare_trace E uid f s =
               (Unshared,
                [s\<lparr>publicFilesRegistry := (publicFilesRegistry s)(p := None)\<rparr>,
                 s\<lparr>publicFilesRegistry := (publicFilesRegistry s)(p := None), files := fs1\<rparr>])"
proof -
  from assms(3) obtain m where m: "getFileMetadata E (files s) uid f = JObject m"
    and p: "public_token m = Some p"
    unfolding shared_token_object by blast
  from shared_token_file [OF assms(3)]
  have "fs_lookup (files s) (getMetadataPath E uid f) \<noteq> Inr Subdir" by auto
  from unshare_trace_object [OF assms(1,2) m this] m p show ?thesis by auto
qed


lemma resolvePublic_missing:
  assumes "publicFilesRegistry s p = None"
  shows "resolvePublic s p \<noteq> Inr info"
    and "publicId_format p \<Longrightarrow> resolvePublic s p = Inl (Error 404 ''Public file not found'')"
  using assms by (simp_all add: resolvePublic_def)

section \<open>Properties of rename\<close>




section \<open>The small instance meets the contract\<close>

lemma ucast_byte_unit: "ucast (ucast (b :: 8 word) :: 16 word) = b"
  by (rule ucast_up_ucast_id) (simp add: is_up)

lemma demo_object_JSON: "demo_object (demo_object_text m) = Some m"
proof -
  have tw: "takeWhile (\<lambda>c. c = 0x31) (replicate n (0x31 :: 16 word) @ 0x30 # xs) = replicate n 0x31"
    for n xs
    by (induction n) simp_all
  show ?thesis
    by (cases "publicId m"; cases "userId m")
      (simp_all add: demo_object_def demo_object_text_def demo_user_def tw Let_def)
qed

lemma demo_object_text_brace: "\<exists>cs. demo_object_text m = 0x7B # cs"
  by (simp add: demo_object_text_def)

lemma demo_JSON: "demo_parse (demo_stringify v) = Some v"
proof (cases v)
  case (JObject m)
  from demo_object_text_brace [of m] obtain cs where cs: "demo_object_text m = 0x7B # cs" by blast
  have "demo_object_text m \<noteq> js ''null''" "demo_object_text m \<noteq> js ''0''"
    "demo_object_text m \<noteq> js ''[]''"
    unfolding cs by (simp_all add: js_def)
  then show ?thesis by (simp add: JObject demo_parse_def demo_stringify_def demo_object_JSON)
qed (simp_all add: demo_parse_def demo_stringify_def js_def)

lemma demo_runtime_ok: "runtime_ok demo_runtime"
  unfolding runtime_ok_def
proof (intro conjI allI impI)
  fix password salt :: buffer and iterations keylen :: nat and digest :: string
  show "length (pbkdf2Sync demo_runtime password salt iterations keylen digest) = keylen"
    by (simp add: demo_runtime_def)
next
  fix key iv plaintext :: buffer
  show "case cipher_gcm demo_runtime key iv plaintext of (encrypted, tag) \<Rightarrow>
           length encrypted = length plaintext \<and> length tag = 16
           \<and> decipher_gcm demo_runtime key iv tag encrypted = Some plaintext"
    by (simp add: demo_runtime_def demo_tag_def comp_def)
next
  fix bytes :: buffer
  show "base64_decode demo_runtime (base64_encode demo_runtime bytes) = bytes"
    by (simp add: demo_runtime_def comp_def ucast_byte_unit)
next
  fix v :: json
  show "JSON_parse demo_runtime (JSON_stringify demo_runtime v) = Some v"
    by (simp add: demo_runtime_def demo_JSON)
qed

lemma demo_dir: "getUserDataDir demo_runtime alice = js ''alice00000000000''"
  by (simp add: getUserDataDir_def demo_runtime_def alice_def js_def)

lemma valid_a_txt: "isValidFilename (js ''a.txt'')"
  by (simp add: isValidFilename_def MAX_FILENAME_LENGTH_def js_def FILENAME_REGEX_def
      alnum_def name_char_def startsWith_def)

lemma demo_lookup_a_txt:
  "fs_lookup (files demo_server) (js ''alice00000000000'', js ''a.txt'') = Inr (File (js ''x''))"
  by (simp add: demo_server_def fs_lookup_def namespace_of_def js_def)

lemma demo_lookup_sidecar:
  "fs_lookup (files demo_server) (getMetadataPath demo_runtime alice (js ''a.txt'')) = Inl ENOENT"
  by (simp add: demo_server_def fs_lookup_def namespace_of_def getMetadataPath_def demo_dir js_def)

lemma demo_user_key:
  "getUserEncryptionKey demo_runtime alice
     = [107, 117, 115, 101, 114, 58, 97, 108, 105, 99, 101] @ replicate 21 0"
  by (simp add: getUserEncryptionKey_def demo_runtime_def alice_def js_def unit_cp_def is_high_def
      is_low_def encode_cp_def)

lemma demo_key:
  "getKey demo_runtime (getUserEncryptionKey demo_runtime alice) salt
     = [107, 117, 115, 101, 114, 58, 97, 108, 105, 99, 101] @ replicate 21 0"
  unfolding demo_user_key by (simp add: getKey_def demo_runtime_def)

lemma sum_list_upt_bytes: "sum_list (map of_nat [64..<80] :: 8 word list) = 120"
  by (simp add: upt_rec [of 64] upt_rec [of 65] upt_rec [of 66] upt_rec [of 67] upt_rec [of 68]
      upt_rec [of 69] upt_rec [of 70] upt_rec [of 71] upt_rec [of 72] upt_rec [of 73]
      upt_rec [of 74] upt_rec [of 75] upt_rec [of 76] upt_rec [of 77] upt_rec [of 78]
      upt_rec [of 79] upt_rec [of 80])

lemma demo_decrypt_fields:
  "decrypt demo_runtime
     (base64_encode demo_runtime
        (map of_nat [0..<64] @ map of_nat [64..<80] @ replicate 16 111 @ [202, x])) alice
      = (case decipher_gcm demo_runtime
                (getKey demo_runtime (getUserEncryptionKey demo_runtime alice) (map of_nat [0..<64]))
                (map of_nat [64..<80]) (replicate 16 111) [202, x] of
           None \<Rightarrow> Inl AuthenticationError
         | Some plaintext \<Rightarrow> Inr (utf8_decode plaintext))"
  by (rule decrypt_fields) (simp_all add: runtime_ok_base64 [OF demo_runtime_ok])

lemma decrypt_genuine_blob: "decrypt demo_runtime genuine_blob alice = Inr (js ''hi'')"
  unfolding genuine_blob_def demo_decrypt_fields demo_key
  by (simp add: demo_runtime_def demo_tag_def sum_list_upt_bytes sum_list_replicate
      utf8_decode_def lead_def utf16_units_def js_def)

lemma decrypt_tampered_blob: "decrypt demo_runtime tampered_blob alice = Inl AuthenticationError"
  unfolding tampered_blob_def demo_decrypt_fields demo_key
  by (simp add: demo_runtime_def demo_tag_def sum_list_upt_bytes sum_list_replicate)

lemma randomBytes_twice:
  "fst (randomBytes m (snd (randomBytes n r))) = map r [n..<n + m]"
proof -
  have "map (\<lambda>i. r (i + n)) [0..<m] = map r (map (\<lambda>i. i + n) [0..<m])" by (simp add: comp_def)
  also have "\<dots> = map r [n..<n + m]" by (simp add: map_add_upt add.commute)
  finally show ?thesis by (simp add: randomBytes_def)
qed

lemma encrypt_genuine_blob:
  "fst (encrypt demo_runtime (js ''hi'') alice demo_rng) = genuine_blob"
proof -
  have salt: "fst (randomBytes SALT_LENGTH demo_rng) = map of_nat [0..<64]"
    by (simp add: randomBytes_def demo_rng_def SALT_LENGTH_def)
  have iv: "fst (randomBytes IV_LENGTH (snd (randomBytes SALT_LENGTH demo_rng)))
      = map of_nat [64..<80]"
    unfolding randomBytes_twice by (simp add: demo_rng_def SALT_LENGTH_def IV_LENGTH_def)
  have plain: "utf8_encode (js ''hi'') = [104, 105]"
    by (simp add: js_def unit_cp_def is_high_def is_low_def encode_cp_def)
  show ?thesis
    unfolding encrypt_def Let_def genuine_blob_def
    by (simp add: split_beta salt iv demo_key plain)
      (simp add: demo_runtime_def demo_tag_def sum_list_upt_bytes sum_list_replicate)
qed

lemma tampered_read:
  "fs_readFile (files tampered_server) (getUserDataDir demo_runtime alice, js ''a.txt'')
     = Inr tampered_blob"
  by (simp add: tampered_server_def fs_readFile_def fs_lookup_def namespace_of_def demo_dir js_def)

lemma valid_b_txt: "isValidFilename (js ''b.txt'')"
  by (simp add: isValidFilename_def MAX_FILENAME_LENGTH_def js_def FILENAME_REGEX_def
      alnum_def name_char_def startsWith_def)

lemma tampered_absent:
  "fs_readFile (files tampered_server) (getUserDataDir demo_runtime alice, js ''b.txt'')
     = Inl ENOENT"
  by (simp add: tampered_server_def fs_readFile_def fs_lookup_def namespace_of_def demo_dir js_def)

section \<open>Properties of the concrete inputs\<close>

lemma demo_token_format: "publicId_format demo_token"
  unfolding demo_token_def by (rule generatePublicId_format)

lemma demo_token_nonempty: "demo_token \<noteq> []"
  using demo_token_format by (rule publicId_format_nonempty)

lemma public_token_shared_metadata: "public_token shared_metadata = Some demo_token"
  by (simp add: public_token_def shared_metadata_def demo_token_nonempty)

lemma shared_token_shared_metadata: "shared_token (JObject shared_metadata) = Some demo_token"
  by (simp add: shared_token_object public_token_shared_metadata)

lemma demo_share:
  "api_share_file demo_runtime alice (js ''a.txt'') demo_server
     = (Shared demo_token (js ''/public/'' @ demo_token), shared_server)"
proof -
  have acc: "fs_access (files demo_server) (getUserDataDir demo_runtime alice, js ''a.txt'') = Inr ()"
    by (simp add: fs_access_def demo_dir demo_lookup_a_txt)
  have m: "getFileMetadata demo_runtime (files demo_server) alice (js ''a.txt'')
      = JObject default_metadata"
    by (simp add: getFileMetadata_def fs_readFile_def demo_lookup_sidecar)
  have save: "saveFileMetadata demo_runtime (files demo_server) alice (js ''a.txt'')
       (JObject (default_metadata
          \<lparr>isPublic := True, publicId := Some (fst (generatePublicId (entropy demo_server))),
           userId := Some alice\<rparr>)) = Inr (files shared_server)"
    by (simp add: saveFileMetadata_def fs_writeFile_def namespace_of_def getMetadataPath_def
        demo_dir demo_server_def shared_server_def fs_put_def on_namespace_def js_def
        default_metadata_def shared_metadata_def demo_token_def)
  have "api_share_file demo_runtime alice (js ''a.txt'') demo_server =
     (Shared (fst (generatePublicId (entropy demo_server)))
        (js ''/public/'' @ fst (generatePublicId (entropy demo_server))),
      demo_server\<lparr>files := files shared_server,
        publicFilesRegistry := (publicFilesRegistry demo_server)
          (fst (generatePublicId (entropy demo_server))
             \<mapsto> \<lparr>info_userId = Some alice, info_filename = js ''a.txt''\<rparr>),
        entropy := snd (generatePublicId (entropy demo_server))\<rparr>)"
    using valid_a_txt acc m public_token_default save by (rule share_fresh)
  then show ?thesis by (simp add: demo_server_def shared_server_def demo_token_def)
qed

lemma shared_lookup_a_txt:
  "fs_lookup (files shared_server) (getUserDataDir demo_runtime alice, js ''a.txt'')
     = Inr (File (js ''x''))"
  by (simp add: shared_server_def fs_lookup_def namespace_of_def demo_dir js_def)


lemma shared_lookup_sidecar:
  "fs_lookup (files shared_server) (getMetadataPath demo_runtime alice (js ''a.txt''))
     = Inr (File (JSON_stringify demo_runtime (JObject shared_metadata)))"
  by (simp add: shared_server_def fs_lookup_def namespace_of_def getMetadataPath_def demo_dir js_def)

lemma shared_metadata_read:
  "getFileMetadata demo_runtime (files shared_server) alice (js ''a.txt'') = JObject shared_metadata"
  by (simp add: getFileMetadata_def fs_readFile_def shared_lookup_sidecar
      runtime_ok_JSON [OF demo_runtime_ok])

section \<open>Properties of delete\<close>

lemma delete_missing:
  assumes "isValidFilename f" "fs_lookup (files s) (getUserDataDir E uid, f) = Inl e"
  shows "fst (api_delete_file E uid f s) = Error 500 ''Failed to delete file''"
proof (cases "get_properties (getFileMetadata E (files s) uid f)")
  case (Inl e')
  with assms(1) show ?thesis by (simp add: api_delete_file_def)
next
  case (Inr props)
  with assms show ?thesis
    by (cases "public_token props") (simp_all add: api_delete_file_def fs_unlink_def Let_def)
qed

lemma delete_null:
  assumes "isValidFilename f" "getFileMetadata E (files s) uid f = JNull"
  shows "api_delete_file E uid f s = (Error 500 ''Failed to delete file'', s)"
  using assms by (simp add: api_delete_file_def get_properties_def)

lemma delete_existing:
  assumes "isValidFilename f" "fs_lookup (files s) (getUserDataDir E uid, f) = Inr (File t)"
    and "getFileMetadata E (files s) uid f \<noteq> JNull"
  shows "fst (api_delete_file E uid f s) = Deleted"
    and "fs_lookup (files (snd (api_delete_file E uid f s))) (getUserDataDir E uid, f) = Inl ENOENT"
    and "shared_token (getFileMetadata E (files s) uid f) = Some p
           \<Longrightarrow> publicFilesRegistry (snd (api_delete_file E uid f s)) p = None"
    and "shared_token (getFileMetadata E (files s) uid f) = Some p
           \<Longrightarrow> fs_lookup (files (snd (api_delete_file E uid f s))) (getMetadataPath E uid f)
                 = Inl ENOENT"
proof -
  define d where "d = getUserDataDir E uid"
  define mp where "mp = getMetadataPath E uid f"
  from assms(3) obtain props where
    props: "get_properties (getFileMetadata E (files s) uid f) = Inr props"
    by (cases "get_properties (getFileMetadata E (files s) uid f)")
      (simp_all add: get_properties_null)
  have tok: "shared_token (getFileMetadata E (files s) uid f) = public_token props"
    by (simp add: shared_token_def props)
  define s1 where "s1 = (case public_token props of
       None \<Rightarrow> s
     | Some p \<Rightarrow> s\<lparr>publicFilesRegistry := (publicFilesRegistry s)(p := None)\<rparr>)"
  have f1: "files s1 = files s"
    by (cases "public_token props") (simp_all add: s1_def)
  have u1: "fs_unlink (files s1) (d, f) = Inr (fs_remove (d, f) (files s))"
    using assms(2) by (simp add: f1 fs_unlink_def d_def)
  define fs1 where "fs1 = fs_remove (d, f) (files s)"
  have l1: "fs_lookup fs1 r = (if r = (d, f) then Inl ENOENT else fs_lookup (files s) r)" for r
    using lookup_unlink [OF u1 [unfolded f1], of r] by (simp add: fs1_def)
  have ne: "mp \<noteq> (d, f)" unfolding mp_def by (rule metadata_path_not_content [OF assms(1)])
  define fs2 where "fs2 = (case fs_unlink fs1 mp of Inl e \<Rightarrow> fs1 | Inr fs' \<Rightarrow> fs')"
  have res: "api_delete_file E uid f s = (Deleted, s1\<lparr>files := fs2\<rparr>)"
    using assms(1) u1 props
    by (cases "fs_unlink fs1 mp")
      (simp_all add: api_delete_file_def Let_def s1_def [symmetric] d_def [symmetric]
        mp_def [symmetric] fs1_def [symmetric] fs2_def)
  have l2: "fs_lookup fs2 (d, f) = Inl ENOENT"
  proof (cases "fs_unlink fs1 mp")
    case (Inl e)
    then show ?thesis by (simp add: fs2_def l1)
  next
    case (Inr fs')
    from lookup_unlink [OF Inr, of "(d, f)"] ne Inr show ?thesis by (simp add: fs2_def l1)
  qed
  show "fst (api_delete_file E uid f s) = Deleted" by (simp add: res)
  show "fs_lookup (files (snd (api_delete_file E uid f s))) (getUserDataDir E uid, f) = Inl ENOENT"
    by (simp add: res l2 d_def [symmetric])
  show "publicFilesRegistry (snd (api_delete_file E uid f s)) p = None"
    if "shared_token (getFileMetadata E (files s) uid f) = Some p"
    using that by (simp add: res s1_def tok)
  show "fs_lookup (files (snd (api_delete_file E uid f s))) (getMetadataPath E uid f) = Inl ENOENT"
    if "shared_token (getFileMetadata E (files s) uid f) = Some p"
  proof -
    from shared_token_file [OF that] obtain t' where "fs_lookup (files s) mp = Inr (File t')"
      by (auto simp: mp_def)
    with ne have "fs_lookup fs1 mp = Inr (File t')" by (simp add: l1)
    then have u2: "fs_unlink fs1 mp = Inr (fs_remove mp fs1)" by (simp add: fs_unlink_def)
    from lookup_unlink [OF u2, of mp] u2 show ?thesis
      by (simp add: res fs2_def mp_def [symmetric])
  qed
qed

section \<open>Properties of the registry rebuild\<close>

lemma load_files_append:
  "load_files E fs h (xs @ ys) reg =
     (case load_files E fs h xs reg of
        (Some e, reg') \<Rightarrow> (Some e, reg')
      | (None, reg') \<Rightarrow> load_files E fs h ys reg')"
  by (induction xs arbitrary: reg) (auto split: sum.splits option.splits)

lemma load_files_corrupt:
  assumes "endsWith file (js ''.meta.json'')" "fs_readFile fs (h, file) = Inr data"
    and "JSON_parse E data = None"
  shows "load_files E fs h (file # rest) reg = (Some SyntaxError, reg)"
  using assms by simp

lemma demo_parse_brace: "JSON_parse demo_runtime (js ''{'') = None"
  by (simp add: demo_runtime_def demo_parse_def demo_object_def js_def)

lemma slice_b_txt: "slice_1_minus10 (js ''.b.txt.meta.json'') = js ''b.txt''"
  by (simp add: slice_1_minus10_def js_def)

lemma ends_with_meta:
  "endsWith (js ''.a.txt.meta.json'') (js ''.meta.json'')"
  "endsWith (js ''.b.txt.meta.json'') (js ''.meta.json'')"
  "\<not> endsWith (js ''a.txt'') (js ''.meta.json'')"
  "\<not> endsWith (js ''b.txt'') (js ''.meta.json'')"
  by (simp_all add: endsWith_def suffix_to_prefix js_def)


lemma load_files_null:
  assumes "endsWith file (js ''.meta.json'')" "fs_readFile fs (h, file) = Inr data"
    and "JSON_parse E data = Some JNull"
  shows "load_files E fs h (file # rest) reg = (Some TypeError, reg)"
  using assms by (simp add: get_properties_def)

lemma load_corrupt_first:
  "publicFilesRegistry (loadPublicFilesRegistry demo_runtime corrupt_first_server) = Map.empty"
  by (simp add: loadPublicFilesRegistry_def corrupt_first_server_def fs_readdir_def
      namespace_of_def ends_with_meta fs_readFile_def fs_lookup_def demo_parse_brace
      js_def [of "''alice00000000000''"])

lemma load_corrupt_last:
  "publicFilesRegistry (loadPublicFilesRegistry demo_runtime corrupt_last_server)
     = [demo_token \<mapsto> \<lparr>info_userId = Some alice, info_filename = js ''b.txt''\<rparr>]"
proof -
  have neq: "js ''.b.txt.meta.json'' \<noteq> js ''.a.txt.meta.json''" by (simp add: js_def)
  have user: "userId shared_metadata = Some alice" by (simp add: shared_metadata_def)
  show ?thesis
    by (simp add: loadPublicFilesRegistry_def corrupt_last_server_def fs_readdir_def
      namespace_of_def ends_with_meta fs_readFile_def fs_lookup_def demo_parse_brace
      runtime_ok_JSON [OF demo_runtime_ok] get_properties_object public_token_shared_metadata
      slice_b_txt neq user js_def [of "''alice00000000000''"])
qed

lemma corrupt_first_metadata:
  "getFileMetadata demo_runtime (files corrupt_first_server) alice (js ''b.txt'')
     = JObject shared_metadata"
proof -
  have neq: "js ''.b.txt.meta.json'' \<noteq> js ''.a.txt.meta.json''" by (simp add: js_def)
  have "getMetadataPath demo_runtime alice (js ''b.txt'')
      = (js ''alice00000000000'', js ''.b.txt.meta.json'')"
    by (simp add: getMetadataPath_def demo_dir js_def)
  then show ?thesis
    by (simp add: getFileMetadata_def fs_readFile_def fs_lookup_def namespace_of_def
        corrupt_first_server_def runtime_ok_JSON [OF demo_runtime_ok] neq)
qed

section \<open>Properties of list\<close>

lemma promise_all_ok:
  assumes "\<And>x. x \<in> set xs \<Longrightarrow> \<exists>y. f x = Inr y"
  shows "\<exists>ys. promise_all f xs = Inr ys \<and> length ys = length xs
            \<and> (\<forall>i < length xs. f (xs ! i) = Inr (ys ! i))"
  using assms
proof (induction xs)
  case Nil
  then show ?case by simp
next
  case (Cons x xs)
  from Cons.prems obtain y where y: "f x = Inr y" by auto
  from Cons.IH Cons.prems obtain ys where ys: "promise_all f xs = Inr ys" "length ys = length xs"
    "\<forall>i < length xs. f (xs ! i) = Inr (ys ! i)" by auto
  have "\<forall>i < length (x # xs). f ((x # xs) ! i) = Inr ((y # ys) ! i)"
    using y ys(3) by (auto simp: nth_Cons split: nat.splits)
  with y ys show ?case by simp
qed









lemma readdir_listed: "fs_readdir fs d = Inr names \<Longrightarrow> map_of fs d \<noteq> None"
  by (auto simp: fs_readdir_def split: option.splits)











section \<open>More on the concrete inputs\<close>












section \<open>Claim C1: the cipher round trip\<close>

text \<open>
  C1 as stated: for every plaintext string \<open>p\<close> and every identity, decrypting the blob that
  \<open>encrypt\<close> produced returns \<open>p\<close>. \<open>encrypt\<close> hands the cipher the UTF-8 encoding of the
  string, and an unpaired surrogate has none: it is written as U+FFFD. The string whose only
  code unit is \<open>0xD800\<close> comes back as the string whose only code unit is \<open>0xFFFD\<close>.
\<close>

theorem roundtrip_lone_surrogate_counterexample:
  "decrypt demo_runtime (fst (encrypt demo_runtime [0xD800] alice demo_rng)) alice = Inr [0xFFFD]
   \<and> decrypt demo_runtime (fst (encrypt demo_runtime [0xD800] alice demo_rng)) alice \<noteq> Inr [0xD800]"
  unfolding decrypt_encrypt [OF demo_runtime_ok] utf8_lone_surrogate by simp

text \<open>
  C1, amended: for every plaintext string \<open>p\<close> without unpaired surrogates and every identity,
  decrypting the blob that \<open>encrypt\<close> produced for \<open>p\<close> with the same identity returns \<open>p\<close>,
  for every runtime library that meets \<open>runtime_ok\<close>. Neither the size limit nor the
  non-emptiness of the identity is needed.
\<close>

theorem decrypt_encrypt_well_formed:
  assumes "runtime_ok E" "isWellFormed p"
  shows "decrypt E (fst (encrypt E p uid r)) uid = Inr p"
  using decrypt_encrypt [OF assms(1), of p uid r] utf8_roundtrip [OF assms(2)] by simp

theorem decrypt_encrypt_well_formed_witness:
  "runtime_ok demo_runtime \<and> isWellFormed (js ''hi'')
   \<and> decrypt demo_runtime (fst (encrypt demo_runtime (js ''hi'') alice demo_rng)) alice
       = Inr (js ''hi'')"
proof -
  have wf: "isWellFormed (js ''hi'')" by (simp add: js_def is_high_def is_low_def)
  from decrypt_encrypt_well_formed [OF demo_runtime_ok wf] demo_runtime_ok wf
  show ?thesis by blast
qed

section \<open>Claim C2: the failures of read\<close>

text \<open>
  C2 as stated: read fails with NotFound when the file is absent and with
  AuthenticationError when tag verification fails, and an AuthenticationError is never
  reported to the caller as NotFound. The handler has one \<^verbatim>\<open>catch\<close> for both: the stored
  file \<^verbatim>\<open>a.txt\<close> of \<open>tampered_server\<close> holds a blob whose last ciphertext byte was
  changed, \<open>decrypt\<close> rejects it with AuthenticationError, and the response is the same
  \<^verbatim>\<open>404 File not found\<close> that the absent file \<^verbatim>\<open>b.txt\<close> gets.
\<close>

theorem read_auth_failure_counterexample:
  "fs_readFile (files tampered_server) (getUserDataDir demo_runtime alice, js ''a.txt'')
     = Inr tampered_blob
   \<and> decrypt demo_runtime tampered_blob alice = Inl AuthenticationError
   \<and> fst (api_read_file demo_runtime alice (js ''a.txt'') tampered_server)
       = Error 404 ''File not found''
   \<and> fst (api_read_file demo_runtime alice (js ''b.txt'') tampered_server)
       = Error 404 ''File not found''"
  by (simp add: api_read_file_def tampered_read tampered_absent decrypt_tampered_blob
      valid_a_txt valid_b_txt)

text \<open>
  C2, amended: for a valid filename, read answers \<^verbatim>\<open>404 File not found\<close> and leaves the
  state unchanged both when the file is absent and when the file is there and the tag
  verification of its blob fails; the two failures are not told apart.
\<close>

theorem read_failures_not_distinguished:
  assumes "isValidFilename filename"
  shows "(fs_readFile (files s) (getUserDataDir E uid, filename) = Inl ENOENT
            \<longrightarrow> api_read_file E uid filename s = (Error 404 ''File not found'', s))
       \<and> (fs_readFile (files s) (getUserDataDir E uid, filename) = Inr blob
            \<and> decrypt E blob uid = Inl AuthenticationError
            \<longrightarrow> api_read_file E uid filename s = (Error 404 ''File not found'', s))"
  using assms by (simp add: api_read_file_def)

theorem read_failures_not_distinguished_witness:
  "isValidFilename (js ''a.txt'')
   \<and> fs_readFile (files tampered_server) (getUserDataDir demo_runtime alice, js ''a.txt'')
       = Inr tampered_blob
   \<and> decrypt demo_runtime tampered_blob alice = Inl AuthenticationError
   \<and> api_read_file demo_runtime alice (js ''a.txt'') tampered_server
       = (Error 404 ''File not found'', tampered_server)"
  using read_failures_not_distinguished [OF valid_a_txt, of tampered_server demo_runtime alice
      tampered_blob]
    valid_a_txt tampered_read decrypt_tampered_blob
  by blast

section \<open>Claim C3: filename validation\<close>

text \<open>
  C3. \<^verbatim>\<open>isValidFilename\<close> accepts exactly the strings that are non-empty, at most 255
  code units long, contain no occurrence of \<^verbatim>\<open>..\<close>, \<^verbatim>\<open>/\<close> or the backslash, and match
  \<^verbatim>\<open>^[A-Za-z0-9][A-Za-z0-9._-]*$\<close> (a first character that is a letter or a digit, then
  letters, digits, dots, underscores and dashes only). It accepts \<^verbatim>\<open>notes.md\<close> and
  \<^verbatim>\<open>report_v2.txt\<close>; it rejects \<^verbatim>\<open>../etc/passwd\<close>, \<^verbatim>\<open>.hidden\<close>, \<^verbatim>\<open>a/b.txt\<close>, the empty
  string and every name of 300 characters.
\<close>

theorem isValidFilename_exact:
  "(isValidFilename f \<longleftrightarrow>
      f \<noteq> [] \<and> length f \<le> 255
      \<and> \<not> (\<exists>ys zs. f = ys @ js ''..'' @ zs)
      \<and> \<not> (\<exists>ys zs. f = ys @ js ''/'' @ zs)
      \<and> \<not> (\<exists>ys zs. f = ys @ [0x5C] @ zs)
      \<and> (\<exists>c cs. f = c # cs \<and> alnum c \<and> (\<forall>x \<in> set cs. name_char x)))
   \<and> isValidFilename (js ''notes.md'')
   \<and> isValidFilename (js ''report_v2.txt'')
   \<and> \<not> isValidFilename (js ''../etc/passwd'')
   \<and> \<not> isValidFilename (js ''.hidden'')
   \<and> \<not> isValidFilename (js ''a/b.txt'')
   \<and> \<not> isValidFilename (js '''')
   \<and> (\<forall>g. length g = 300 \<longrightarrow> \<not> isValidFilename g)"
proof -
  have exact: "isValidFilename f \<longleftrightarrow>
      f \<noteq> [] \<and> length f \<le> 255
      \<and> \<not> (\<exists>ys zs. f = ys @ js ''..'' @ zs)
      \<and> \<not> (\<exists>ys zs. f = ys @ js ''/'' @ zs)
      \<and> \<not> (\<exists>ys zs. f = ys @ [0x5C] @ zs)
      \<and> (\<exists>c cs. f = c # cs \<and> alnum c \<and> (\<forall>x \<in> set cs. name_char x))"
    using FILENAME_REGEX_no_leading_dot [of f]
    unfolding isValidFilename_def MAX_FILENAME_LENGTH_def
      includes_iff [symmetric] FILENAME_REGEX_iff [symmetric]
    by auto
  have accepts: "isValidFilename (js ''notes.md'')" "isValidFilename (js ''report_v2.txt'')"
    by (simp_all add: isValidFilename_def MAX_FILENAME_LENGTH_def js_def FILENAME_REGEX_def
        alnum_def name_char_def startsWith_def)
  have rejects: "\<not> isValidFilename (js ''../etc/passwd'')" "\<not> isValidFilename (js ''.hidden'')"
    "\<not> isValidFilename (js ''a/b.txt'')" "\<not> isValidFilename (js '''')"
    by (simp_all add: isValidFilename_def MAX_FILENAME_LENGTH_def js_def FILENAME_REGEX_def
        alnum_def name_char_def startsWith_def)
  have long: "\<forall>g. length g = 300 \<longrightarrow> \<not> isValidFilename g"
    by (simp add: isValidFilename_def MAX_FILENAME_LENGTH_def)
  from exact accepts rejects long show ?thesis by blast
qed

theorem isValidFilename_exact_witness:
  "length (replicate 300 (0x61 :: 16 word)) = 300
   \<and> \<not> isValidFilename (replicate 300 0x61)
   \<and> isValidFilename (js ''a-b_c.d'')"
proof -
  have len: "length (replicate 300 (0x61 :: 16 word)) = 300" by simp
  have "\<forall>g. length g = 300 \<longrightarrow> \<not> isValidFilename g"
    using isValidFilename_exact [of "js ''a-b_c.d''"] by blast
  with len have r: "\<not> isValidFilename (replicate 300 0x61)" by blast
  have "js ''a-b_c.d'' = 0x61 # js ''-b_c.d''" by (simp add: js_def)
  moreover have "alnum 0x61" by (simp add: alnum_def)
  moreover have "\<forall>x \<in> set (js ''-b_c.d''). name_char x"
    by (simp add: js_def name_char_def alnum_def)
  moreover have "\<not> includes_str (js ''a-b_c.d'') (js ''..'')" "\<not> includes_str (js ''a-b_c.d'') (js ''/'')"
    "\<not> includes_str (js ''a-b_c.d'') [0x5C]"
    by (simp_all add: js_def)
  moreover have "js ''a-b_c.d'' \<noteq> []" "length (js ''a-b_c.d'') \<le> 255" by (simp_all add: js_def)
  ultimately have "isValidFilename (js ''a-b_c.d'')"
    using isValidFilename_exact [of "js ''a-b_c.d''"] unfolding includes_iff by blast
  with len r show ?thesis by blast
qed

section \<open>Claim C4: the wire format\<close>

text \<open>
  C4. For every text and identity, \<open>encrypt\<close> takes 64 bytes of salt and then 16 bytes of
  nonce from the random source, derives the key from the identity and the salt, gives the
  cipher the UTF-8 bytes of the text, and returns the base64 text of
  \<open>salt @ iv @ tag @ encrypted\<close>, in this order, with what is left of the random source. The
  salt has 64 bytes, the nonce 16, the tag 16, and the ciphertext is as long as the UTF-8
  plaintext (the last two lengths are those the cipher returns, \<open>runtime_ok\<close>). The four
  \<open>subarray\<close> calls of \<open>decrypt\<close>, at the offsets 0, 64, 80 and 96, return exactly these
  fields of the blob. And for every blob, \<open>decrypt\<close> takes the bytes 0 to 64 as the salt of
  the key, the bytes 64 to 80 as the nonce, the bytes 80 to 96 as the tag and the rest as
  the ciphertext.
\<close>

theorem encrypt_wire_format:
  assumes "runtime_ok E"
  shows "(case randomBytes 64 r of (salt, r1) \<Rightarrow>
          case randomBytes 16 r1 of (iv, r2) \<Rightarrow>
          case cipher_gcm E
                 (pbkdf2Sync E
                    (pbkdf2Sync E (utf8_encode (ENCRYPTION_KEY E))
                       (utf8_encode (js ''user:'' @ uid)) 100000 32 ''sha512'')
                    salt 100000 32 ''sha512'')
                 iv (utf8_encode text) of
            (encrypted, tag) \<Rightarrow>
              encrypt E text uid r = (base64_encode E (salt @ iv @ tag @ encrypted), r2)
            \<and> length salt = 64 \<and> length iv = 16 \<and> length tag = 16
            \<and> length encrypted = length (utf8_encode text)
            \<and> (let buf = base64_decode E (fst (encrypt E text uid r))
               in buf = salt @ iv @ tag @ encrypted
                \<and> subarray buf 0 64 = salt
                \<and> subarray buf 64 80 = iv
                \<and> subarray buf 80 96 = tag
                \<and> subarray buf 96 (length buf) = encrypted))
       \<and> (\<forall>blob. decrypt E blob uid =
            (let buf = base64_decode E blob;
                 key = pbkdf2Sync E
                         (pbkdf2Sync E (utf8_encode (ENCRYPTION_KEY E))
                            (utf8_encode (js ''user:'' @ uid)) 100000 32 ''sha512'')
                         (take 64 buf) 100000 32 ''sha512''
             in case decipher_gcm E key (take 16 (drop 64 buf)) (take 16 (drop 80 buf))
                       (drop 96 buf) of
                  None \<Rightarrow> Inl AuthenticationError
                | Some plaintext \<Rightarrow> Inr (utf8_decode plaintext)))"
proof -
  obtain salt r1 where s: "randomBytes 64 r = (salt, r1)" by (cases "randomBytes 64 r")
  obtain iv r2 where i: "randomBytes 16 r1 = (iv, r2)" by (cases "randomBytes 16 r1")
  define key where "key = pbkdf2Sync E
      (pbkdf2Sync E (utf8_encode (ENCRYPTION_KEY E)) (utf8_encode (js ''user:'' @ uid))
         100000 32 ''sha512'')
      salt 100000 32 ''sha512''"
  obtain encrypted tag where c: "cipher_gcm E key iv (utf8_encode text) = (encrypted, tag)"
    by (cases "cipher_gcm E key iv (utf8_encode text)")
  have ls: "length salt = 64" using length_randomBytes [of 64 r] s by simp
  have li: "length iv = 16" using length_randomBytes [of 16 r1] i by simp
  have lk: "length key = 32" using assms by (simp add: key_def runtime_ok_pbkdf2)
  from runtime_ok_cipher [OF assms lk li c] have lt: "length tag = 16"
    and le: "length encrypted = length (utf8_encode text)" by simp_all
  have e: "encrypt E text uid r = (base64_encode E (salt @ iv @ tag @ encrypted), r2)"
    using s i c
    by (simp add: encrypt_def Let_def key_def getKey_def getUserEncryptionKey_def
        SALT_LENGTH_def IV_LENGTH_def)
  have b: "base64_decode E (fst (encrypt E text uid r)) = salt @ iv @ tag @ encrypted"
    unfolding e using assms by (simp add: runtime_ok_base64)
  have slices: "let buf = base64_decode E (fst (encrypt E text uid r))
       in buf = salt @ iv @ tag @ encrypted
        \<and> subarray buf 0 64 = salt
        \<and> subarray buf 64 80 = iv
        \<and> subarray buf 80 96 = tag
        \<and> subarray buf 96 (length buf) = encrypted"
    unfolding b using ls li lt by (simp add: subarray_def)
  have first: "case randomBytes 64 r of (salt, r1) \<Rightarrow>
          case randomBytes 16 r1 of (iv, r2) \<Rightarrow>
          case cipher_gcm E
                 (pbkdf2Sync E
                    (pbkdf2Sync E (utf8_encode (ENCRYPTION_KEY E))
                       (utf8_encode (js ''user:'' @ uid)) 100000 32 ''sha512'')
                    salt 100000 32 ''sha512'')
                 iv (utf8_encode text) of
            (encrypted, tag) \<Rightarrow>
              encrypt E text uid r = (base64_encode E (salt @ iv @ tag @ encrypted), r2)
            \<and> length salt = 64 \<and> length iv = 16 \<and> length tag = 16
            \<and> length encrypted = length (utf8_encode text)
            \<and> (let buf = base64_decode E (fst (encrypt E text uid r))
               in buf = salt @ iv @ tag @ encrypted
                \<and> subarray buf 0 64 = salt
                \<and> subarray buf 64 80 = iv
                \<and> subarray buf 80 96 = tag
                \<and> subarray buf 96 (length buf) = encrypted)"
    unfolding s i c [unfolded key_def] prod.case using e ls li lt le slices by blast
  have second: "decrypt E blob uid =
            (let buf = base64_decode E blob;
                 key = pbkdf2Sync E
                         (pbkdf2Sync E (utf8_encode (ENCRYPTION_KEY E))
                            (utf8_encode (js ''user:'' @ uid)) 100000 32 ''sha512'')
                         (take 64 buf) 100000 32 ''sha512''
             in case decipher_gcm E key (take 16 (drop 64 buf)) (take 16 (drop 80 buf))
                       (drop 96 buf) of
                  None \<Rightarrow> Inl AuthenticationError
                | Some plaintext \<Rightarrow> Inr (utf8_decode plaintext))" for blob
    by (simp add: decrypt_def Let_def subarray_def getKey_def getUserEncryptionKey_def
        SALT_LENGTH_def IV_LENGTH_def TAG_LENGTH_def TAG_POSITION_def ENCRYPTED_POSITION_def
        drop_take)
  from first second show ?thesis by blast
qed

theorem encrypt_wire_format_witness:
  "runtime_ok demo_runtime
   \<and> fst (encrypt demo_runtime (js ''hi'') alice demo_rng)
       = base64_encode demo_runtime
           (map of_nat [0..<64] @ map of_nat [64..<80] @ replicate 16 111 @ [202, 203])
   \<and> decrypt demo_runtime (fst (encrypt demo_runtime (js ''hi'') alice demo_rng)) alice
       = Inr (js ''hi'')"
proof -
  have salt: "fst (randomBytes 64 demo_rng) = map of_nat [0..<64]"
    by (simp add: randomBytes_def demo_rng_def)
  have iv: "fst (randomBytes 16 (snd (randomBytes 64 demo_rng))) = map of_nat [64..<80]"
    unfolding randomBytes_twice by (simp add: demo_rng_def)
  have plain: "utf8_encode (js ''hi'') = [104, 105]"
    by (simp add: js_def unit_cp_def is_high_def is_low_def encode_cp_def)
  note key = demo_key [unfolded getKey_def getUserEncryptionKey_def]
  from encrypt_wire_format [OF demo_runtime_ok, of "js ''hi''" alice demo_rng]
  have "fst (encrypt demo_runtime (js ''hi'') alice demo_rng)
      = base64_encode demo_runtime
          (fst (randomBytes 64 demo_rng) @ fst (randomBytes 16 (snd (randomBytes 64 demo_rng)))
           @ snd (cipher_gcm demo_runtime
                    ([107, 117, 115, 101, 114, 58, 97, 108, 105, 99, 101] @ replicate 21 0)
                    (fst (randomBytes 16 (snd (randomBytes 64 demo_rng)))) [104, 105])
           @ fst (cipher_gcm demo_runtime
                    ([107, 117, 115, 101, 114, 58, 97, 108, 105, 99, 101] @ replicate 21 0)
                    (fst (randomBytes 16 (snd (randomBytes 64 demo_rng)))) [104, 105]))"
    by (simp add: split_beta key plain)
  then have blob: "fst (encrypt demo_runtime (js ''hi'') alice demo_rng)
      = base64_encode demo_runtime
           (map of_nat [0..<64] @ map of_nat [64..<80] @ replicate 16 111 @ [202, 203])"
    unfolding salt iv
    by (simp add: demo_runtime_def demo_tag_def sum_list_upt_bytes sum_list_replicate)
  have "decrypt demo_runtime (fst (encrypt demo_runtime (js ''hi'') alice demo_rng)) alice
       = Inr (js ''hi'')"
    unfolding blob using decrypt_genuine_blob by (simp add: genuine_blob_def)
  with demo_runtime_ok blob show ?thesis by blast
qed

section \<open>Claim C5: share is idempotent\<close>




section \<open>Claim C6: rename\<close>




section \<open>Claim C7: delete\<close>

text \<open>
  C7 says that deleting a nonexistent file fails with NotFound. The handler has no
  existence check: \<^verbatim>\<open>fs.unlink\<close> raises and the one \<^verbatim>\<open>catch\<close> answers
  \<^verbatim>\<open>500 Failed to delete file\<close>, while share and unshare answer \<^verbatim>\<open>404 File not found\<close> for
  the same missing file. The other two parts of the claim hold for a file whose metadata
  is not \<^verbatim>\<open>null\<close> (\<open>delete_existing\<close>).
\<close>

theorem delete_missing_file_is_500:
  "fs_access (files demo_server) (getUserDataDir demo_runtime alice, js ''b.txt'') = Inl ENOENT
   \<and> api_delete_file demo_runtime alice (js ''b.txt'') demo_server
       = (Error 500 ''Failed to delete file'', demo_server)
   \<and> fst (api_share_file demo_runtime alice (js ''b.txt'') demo_server)
       = Error 404 ''File not found''
   \<and> fst (api_unshare_file demo_runtime alice (js ''b.txt'') demo_server)
       = Error 404 ''File not found''"
proof -
  have miss: "fs_lookup (files demo_server) (getUserDataDir demo_runtime alice, js ''b.txt'')
      = Inl ENOENT"
    by (simp add: demo_server_def fs_lookup_def namespace_of_def demo_dir js_def)
  have side: "fs_lookup (files demo_server) (getMetadataPath demo_runtime alice (js ''b.txt''))
      = Inl ENOENT"
    by (simp add: demo_server_def fs_lookup_def namespace_of_def getMetadataPath_def demo_dir js_def)
  have m: "getFileMetadata demo_runtime (files demo_server) alice (js ''b.txt'')
      = JObject default_metadata"
    by (simp add: getFileMetadata_def fs_readFile_def side)
  show ?thesis
    by (simp add: api_delete_file_def api_share_file_def api_unshare_file_def unshare_trace_def
        fs_access_def fs_unlink_def miss m get_properties_object public_token_default
        valid_b_txt)
qed

section \<open>Claim C8: the registry rebuild\<close>

text \<open>
  C8 says that a corrupt metadata record is skipped and the remaining records are still
  loaded. The one \<^verbatim>\<open>try\<close> of \<^verbatim>\<open>loadPublicFilesRegistry\<close> encloses both loops, so the first
  record that fails to parse ends the scan: in \<open>corrupt_first_server\<close> the file \<^verbatim>\<open>b.txt\<close>
  is shared according to its intact sidecar, yet after the rebuild its token does not
  resolve. With the corrupt record listed last the token resolves.
\<close>

theorem registry_rebuild_stops_at_corrupt_sidecar:
  "shared_token (getFileMetadata demo_runtime (files corrupt_first_server) alice (js ''b.txt''))
     = Some demo_token
   \<and> resolvePublic (loadPublicFilesRegistry demo_runtime corrupt_first_server) demo_token
       = Inl (Error 404 ''Public file not found'')
   \<and> resolvePublic (loadPublicFilesRegistry demo_runtime corrupt_last_server) demo_token
       = Inr \<lparr>info_userId = Some alice, info_filename = js ''b.txt''\<rparr>"
  by (simp add: corrupt_first_metadata shared_token_shared_metadata resolvePublic_def
      demo_token_format load_corrupt_first load_corrupt_last)

section \<open>Claim C9: the order of unshare\<close>

text \<open>
  C9. Unshare of a shared file goes through two states: in the first the registry entry of
  the token is gone while the files, and with them the metadata, are as before; in the
  second the metadata reads \<open>isPublic = False\<close>, \<open>publicId = None\<close>. In no state from the
  start to the end does the registry hold the token while the metadata on disk has
  disavowed it.
\<close>

theorem unshare_registry_before_metadata:
  assumes "runtime_ok E" "isValidFilename filename"
    and "fs_access (files s) (getUserDataDir E uid, filename) = Inr ()"
    and "shared_token (getFileMetadata E (files s) uid filename) = Some p"
  shows "\<exists>s1 s2 m.
       unshare_trace E uid filename s = (Unshared, [s1, s2])
     \<and> api_unshare_file E uid filename s = (Unshared, s2)
     \<and> publicFilesRegistry s1 p = None \<and> files s1 = files s
     \<and> shared_token (getFileMetadata E (files s1) uid filename) = Some p
     \<and> publicFilesRegistry s2 p = None
     \<and> getFileMetadata E (files s) uid filename = JObject m
     \<and> getFileMetadata E (files s2) uid filename
         = JObject (m\<lparr>isPublic := False, publicId := None\<rparr>)
     \<and> (\<forall>t \<in> set [s, s1, s2].
           shared_token (getFileMetadata E (files t) uid filename) = None
             \<longrightarrow> publicFilesRegistry t p = None)"
proof -
  from unshare_trace_shared [OF assms(2-4)] obtain m fs1 where
    m: "getFileMetadata E (files s) uid filename = JObject m"
    and save: "saveFileMetadata E (files s) uid filename
                 (JObject (m\<lparr>isPublic := False, publicId := None\<rparr>)) = Inr fs1"
    and tr: "unshare_trace E uid filename s =
               (Unshared,
                [s\<lparr>publicFilesRegistry := (publicFilesRegistry s)(p := None)\<rparr>,
                 s\<lparr>publicFilesRegistry := (publicFilesRegistry s)(p := None), files := fs1\<rparr>])"
    by blast
  have m2: "getFileMetadata E fs1 uid filename
      = JObject (m\<lparr>isPublic := False, publicId := None\<rparr>)"
    using assms(1) save by (rule getFileMetadata_saved)
  show ?thesis
    using tr m m2 assms(4) by (simp add: api_unshare_file_def)
qed

theorem unshare_registry_before_metadata_witness:
  "runtime_ok demo_runtime \<and> isValidFilename (js ''a.txt'')
   \<and> fs_access (files shared_server) (getUserDataDir demo_runtime alice, js ''a.txt'') = Inr ()
   \<and> shared_token (getFileMetadata demo_runtime (files shared_server) alice (js ''a.txt''))
       = Some demo_token
   \<and> publicFilesRegistry shared_server demo_token
       = Some \<lparr>info_userId = Some alice, info_filename = js ''a.txt''\<rparr>
   \<and> (\<exists>s1 s2.
         unshare_trace demo_runtime alice (js ''a.txt'') shared_server = (Unshared, [s1, s2])
       \<and> publicFilesRegistry s1 demo_token = None \<and> files s1 = files shared_server
       \<and> publicFilesRegistry s2 demo_token = None
       \<and> shared_token (getFileMetadata demo_runtime (files s2) alice (js ''a.txt'')) = None)"
proof -
  have acc: "fs_access (files shared_server) (getUserDataDir demo_runtime alice, js ''a.txt'')
      = Inr ()"
    by (simp add: fs_access_def shared_lookup_a_txt)
  have tok: "shared_token (getFileMetadata demo_runtime (files shared_server) alice (js ''a.txt''))
       = Some demo_token"
    by (simp add: shared_metadata_read shared_token_shared_metadata)
  have reg: "publicFilesRegistry shared_server demo_token
       = Some \<lparr>info_userId = Some alice, info_filename = js ''a.txt''\<rparr>"
    by (simp add: shared_server_def)
  from unshare_registry_before_metadata [OF demo_runtime_ok valid_a_txt acc tok]
  obtain s1 s2 m where
    "unshare_trace demo_runtime alice (js ''a.txt'') shared_server = (Unshared, [s1, s2])"
    "publicFilesRegistry s1 demo_token = None" "files s1 = files shared_server"
    "publicFilesRegistry s2 demo_token = None"
    "getFileMetadata demo_runtime (files s2) alice (js ''a.txt'')
       = JObject (m\<lparr>isPublic := False, publicId := None\<rparr>)"
    by blast
  moreover from this(5) have
    "shared_token (getFileMetadata demo_runtime (files s2) alice (js ''a.txt'')) = None"
    by (simp add: shared_token_def get_properties_object public_token_def)
  ultimately show ?thesis using demo_runtime_ok valid_a_txt acc tok reg by blast
qed

section \<open>Claim C10: list never reports an error\<close>



end
